theory Spec2Isabelle
  imports Complex_Main "HOL-Library.Word" "HOL-Library.Char_ord" "HOL-Library.List_Lexorder"
begin

section \<open>repo\_to\_text.py: data model\<close>

text \<open>
  Python \<open>bytes\<close> are lists of 8-bit words, Python \<open>str\<close> is \<open>string\<close> (one
  \<open>char\<close> per code point, so the model covers text over code points below 256), Python
  \<open>int\<close> is \<open>int\<close>, \<open>Optional[str]\<close> is \<open>string option\<close>.
\<close>

type_synonym byte = "8 word"

section \<open>Binary Sniffer: \<open>is_probably_binary\<close>\<close>

text \<open>\<open>text_whitelist = set(b"\t\n\r\f\b\x0c")\<close>\<close>

definition text_whitelist :: "byte set" where
  "text_whitelist = {9, 10, 13, 12, 8, 12}"

text \<open>
  The \<open>for b in sample\<close> loop with its counter \<open>suspicious\<close>. \<open>None\<close> is the early
  \<open>return True\<close> on a zero byte, \<open>Some n\<close> the counter when the loop falls through.
\<close>

fun scan_sample :: "byte list \<Rightarrow> nat \<Rightarrow> nat option" where
  "scan_sample [] suspicious = Some suspicious"
| "scan_sample (b # bs) suspicious =
     (if b = 0 then None
      else if 32 \<le> b \<and> b \<le> 126 then scan_sample bs suspicious
      else if b \<in> text_whitelist then scan_sample bs suspicious
      else if 127 \<le> b \<and> b \<le> 159 then scan_sample bs (suspicious + 1)
      else scan_sample bs (suspicious + 1))"

text \<open>
  The last line of the source is \<open>suspicious / max(1, len(sample)) > 0.30\<close> on Python
  floats. Python's \<open>/\<close> on two ints is the correctly rounded quotient and \<open>0.30\<close> is the
  double nearest to \<open>3/10\<close>; for \<open>suspicious \<le> len(sample) < 2^50\<close> a quotient different
  from \<open>3/10\<close> is further from it than the rounding error, and the quotient \<open>3/10\<close> rounds
  to the literal itself. So the float comparison has the value of the exact one, which the
  model writes over the reals.
\<close>

definition is_probably_binary :: "byte list \<Rightarrow> bool" where
  "is_probably_binary sample =
     (if sample = [] then False
      else if 0 \<in> set sample then True
      else (case scan_sample sample 0 of
              None \<Rightarrow> True
            | Some suspicious \<Rightarrow> real suspicious / real (max 1 (length sample)) > 0.30))"

text \<open>
  The spec's wording of a suspicious byte, for comparison with the loop: not printable
  ASCII (0x20 to 0x7E) and not tab, newline, carriage return, form feed or backspace.
\<close>

definition spec_suspicious :: "byte \<Rightarrow> bool" where
  "spec_suspicious b = (\<not> (0x20 \<le> b \<and> b \<le> 0x7E) \<and> b \<notin> {0x09, 0x0A, 0x0D, 0x0C, 0x08})"

definition spec_suspicious_count :: "byte list \<Rightarrow> nat" where
  "spec_suspicious_count sample = length (filter spec_suspicious sample)"

section \<open>Configuration tables\<close>

definition DEFAULT_IGNORED_DIRS :: "string set" where
  "DEFAULT_IGNORED_DIRS = set [
    ''.git'', ''.hg'', ''.svn'', ''.bzr'', ''node_modules'', ''__pycache__'',
    ''.pytest_cache'', ''.mypy_cache'', ''venv'', ''.venv'', ''env'', ''.env'', ''ENV'',
    ''dist'', ''build'', ''out'', ''target'', ''coverage'', ''site-packages'', ''.idea'',
    ''.vscode'', ''.DS_Store'']"

definition ALWAYS_SKIP_EXTS :: "string set" where
  "ALWAYS_SKIP_EXTS = set [
    ''.png'', ''.jpg'', ''.jpeg'', ''.gif'', ''.bmp'', ''.tiff'', ''.tif'', ''.webp'',
    ''.svgz'', ''.mp3'', ''.wav'', ''.flac'', ''.ogg'', ''.mp4'', ''.mkv'', ''.avi'',
    ''.mov'', ''.webm'', ''.zip'', ''.tar'', ''.gz'', ''.tgz'', ''.bz2'', ''.xz'',
    ''.7z'', ''.rar'', ''.exe'', ''.dll'', ''.so'', ''.dylib'', ''.class'', ''.o'',
    ''.a'', ''.bin'', ''.wasm'', ''.pdf'']"

definition PREFER_TEXT_EXTS :: "string set" where
  "PREFER_TEXT_EXTS = set [
    ''.py'', ''.pyi'', ''.pyx'', ''.pxd'', ''.js'', ''.jsx'', ''.ts'', ''.tsx'',
    ''.java'', ''.kt'', ''.kts'', ''.scala'', ''.rb'', ''.go'', ''.rs'', ''.c'', ''.h'',
    ''.cpp'', ''.hpp'', ''.cc'', ''.hh'', ''.m'', ''.mm'', ''.cs'', ''.vb'', ''.fs'',
    ''.fsx'', ''.php'', ''.r'', ''.jl'', ''.pl'', ''.lua'', ''.sh'', ''.bash'', ''.zsh'',
    ''.fish'', ''.ps1'', ''.psm1'', ''.psd1'', ''.sql'', ''.yaml'', ''.yml'', ''.json'',
    ''.jsonc'', ''.toml'', ''.ini'', ''.cfg'', ''.conf'', ''.env'', ''.properties'',
    ''.html'', ''.htm'', ''.xml'', ''.svg'', ''.xhtml'', ''.xsd'', ''.md'', ''.rst'',
    ''.txt'', ''.csv'', ''.tsv'', ''.log'', ''.tex'', ''.gradle'', ''.sbt'', ''.cabal'',
    ''.nim'', ''.hs'']"

definition DOCX_EXTS :: "string set" where
  "DOCX_EXTS = {''.docx''}"

definition PDF_EXTS :: "string set" where
  "PDF_EXTS = {''.pdf''}"

text \<open>The dict \<open>EXT_TO_LANG\<close>, as the list of its items; \<open>map_of\<close> is the lookup.\<close>

definition EXT_TO_LANG :: "(string \<times> string) list" where
  "EXT_TO_LANG = [
    (''.py'', ''python''), (''.js'', ''javascript''), (''.jsx'', ''jsx''),
    (''.ts'', ''typescript''), (''.tsx'', ''tsx''), (''.java'', ''java''),
    (''.kt'', ''kotlin''), (''.kts'', ''kotlin''), (''.scala'', ''scala''),
    (''.rb'', ''ruby''), (''.go'', ''go''), (''.rs'', ''rust''), (''.c'', ''c''),
    (''.h'', ''c''), (''.cpp'', ''cpp''), (''.hpp'', ''cpp''), (''.cc'', ''cpp''),
    (''.hh'', ''cpp''), (''.m'', ''objective-c''), (''.mm'', ''objective-cpp''),
    (''.cs'', ''csharp''), (''.vb'', ''vbnet''), (''.fs'', ''fsharp''),
    (''.fsx'', ''fsharp''), (''.php'', ''php''), (''.r'', ''r''), (''.jl'', ''julia''),
    (''.pl'', ''perl''), (''.lua'', ''lua''), (''.sh'', ''bash''), (''.bash'', ''bash''),
    (''.zsh'', ''zsh''), (''.fish'', ''fish''), (''.ps1'', ''powershell''),
    (''.psm1'', ''powershell''), (''.psd1'', ''powershell''), (''.sql'', ''sql''),
    (''.yaml'', ''yaml''), (''.yml'', ''yaml''), (''.json'', ''json''),
    (''.toml'', ''toml''), (''.ini'', ''ini''), (''.cfg'', ''ini''), (''.conf'', ''ini''),
    (''.html'', ''html''), (''.htm'', ''html''), (''.xml'', ''xml''), (''.svg'', ''xml''),
    (''.md'', ''markdown''), (''.rst'', ''rst''), (''.txt'', ''text''),
    (''.csv'', ''csv''), (''.tsv'', ''tsv''), (''.tex'', ''tex'')]"

section \<open>Library functions of Python the program calls\<close>

text \<open>
  \<open>str.lower\<close> on code points below 256: the ASCII capitals and the Latin-1 capitals
  0xC0 to 0xDE (the multiplication sign 0xD7 apart) move up by 32.
\<close>

definition lower_char :: "char \<Rightarrow> char" where
  "lower_char c =
     (let n = (of_char c :: nat)
      in if (65 \<le> n \<and> n \<le> 90) \<or> (192 \<le> n \<and> n \<le> 222 \<and> n \<noteq> 215)
         then char_of (n + 32) else c)"

definition lower :: "string \<Rightarrow> string" where
  "lower s = map lower_char s"

text \<open>\<open>s.startswith('.')\<close> and \<open>s.endswith('\n')\<close>\<close>

definition startswith_dot :: "string \<Rightarrow> bool" where
  "startswith_dot s = (case s of [] \<Rightarrow> False | c # _ \<Rightarrow> c = CHR ''.'')"

definition endswith_newline :: "string \<Rightarrow> bool" where
  "endswith_newline s = (s \<noteq> [] \<and> last s = CHR ''\<newline>'')"

text \<open>\<open>p.rfind(c)\<close>: the index of the last occurrence, or -1.\<close>

fun rfind_from :: "char \<Rightarrow> string \<Rightarrow> int \<Rightarrow> int \<Rightarrow> int" where
  "rfind_from c [] i found = found"
| "rfind_from c (x # xs) i found = rfind_from c xs (i + 1) (if x = c then i else found)"

definition rfind :: "char \<Rightarrow> string \<Rightarrow> int" where
  "rfind c p = rfind_from c p 0 (- 1)"

text \<open>
  \<open>os.path.splitext\<close> of \<open>posixpath\<close>: the extension starts at the last dot of the last
  path component, unless only dots precede it there.
\<close>

definition splitext :: "string \<Rightarrow> string \<times> string" where
  "splitext p =
     (let sepIndex = rfind CHR ''/'' p;
          dotIndex = rfind CHR ''.'' p
      in if dotIndex > sepIndex
            \<and> list_ex (\<lambda>c. c \<noteq> CHR ''.'')
                 (take (nat (dotIndex - (sepIndex + 1))) (drop (nat (sepIndex + 1)) p))
         then (take (nat dotIndex) p, drop (nat dotIndex) p)
         else (p, []))"

text \<open>\<open>os.path.join\<close> of \<open>posixpath\<close>, on two components.\<close>

definition path_join :: "string \<Rightarrow> string \<Rightarrow> string" where
  "path_join a b =
     (if b \<noteq> [] \<and> hd b = CHR ''/'' then b
      else if a = [] \<or> last a = CHR ''/'' then a @ b
      else a @ ''/'' @ b)"

text \<open>\<open>sep.join(parts)\<close>\<close>

fun str_join :: "string \<Rightarrow> string list \<Rightarrow> string" where
  "str_join sep [] = []"
| "str_join sep [x] = x"
| "str_join sep (x # y # ys) = x @ sep @ str_join sep (y # ys)"

text \<open>\<open>str(n)\<close> of an int, as the f-strings format it.\<close>

fun str_nat :: "nat \<Rightarrow> string" where
  "str_nat n =
     (if n < 10 then [char_of (48 + n)]
      else str_nat (n div 10) @ [char_of (48 + n mod 10)])"

declare str_nat.simps [simp del]

definition str_int :: "int \<Rightarrow> string" where
  "str_int i = (if i < 0 then ''-'' @ str_nat (nat (- i)) else str_nat (nat i))"

text \<open>
  \<open>content.replace('\r\n', '\n').replace('\r', '\n')\<close>, one function for each call of
  \<open>replace\<close>. Reading a file in text mode with the default \<open>newline=None\<close> translates
  line endings in the same way.
\<close>

fun replace_crlf :: "string \<Rightarrow> string" where
  "replace_crlf [] = []"
| "replace_crlf [c] = [c]"
| "replace_crlf (c # d # s) =
     (if c = CHR 0x0D \<and> d = CHR 0x0A then CHR 0x0A # replace_crlf s
      else c # replace_crlf (d # s))"

definition replace_cr :: "string \<Rightarrow> string" where
  "replace_cr s = map (\<lambda>c. if c = CHR 0x0D then CHR 0x0A else c) s"

definition normalize_newlines :: "string \<Rightarrow> string" where
  "normalize_newlines s = replace_cr (replace_crlf s)"

section \<open>The world outside the program\<close>

text \<open>
  A directory as \<open>os.walk\<close> lists it: the sub-directories, each with its name and its own
  listing, in the order of \<open>dirnames\<close>, and the names in \<open>filenames\<close>. A sub-directory
  that \<open>os.walk\<close> does not enter or cannot list (a symbolic link, since
  \<open>followlinks=False\<close>, or a directory whose listing fails) contributes no file, as an
  empty listing does.
\<close>

datatype dir = Dir "(string \<times> dir) list" "string list"

datatype encoding = UTF8 | UTF8_SIG | LATIN1 | CP1252

text \<open>
  Everything the program asks of the operating system and of its libraries. A call that
  can raise has an \<open>option\<close> result, \<open>None\<close> for the exception. The file may change under
  the program, so a read of the same path is asked again at every attempt:
  \<open>open_text env path k\<close> is what the \<open>k\<close>-th \<open>io.open(path, 'r', ...)\<close> of
  \<open>read_text_file\<close> reads, as bytes, before decoding.
\<close>

record os_env =
  HAS_PYMUPDF :: bool
  HAS_PYTHON_DOCX :: bool
  getsize :: "string \<Rightarrow> int option"
  relpath :: "string \<Rightarrow> string \<Rightarrow> string option"
  abspath :: "string \<Rightarrow> string"
  isdir :: "string \<Rightarrow> bool"
  walk :: "string \<Rightarrow> dir"
  open_rb_head :: "string \<Rightarrow> byte list option"
  open_text :: "string \<Rightarrow> nat \<Rightarrow> byte list option"
  decode_strict :: "encoding \<Rightarrow> byte list \<Rightarrow> string option"
  decode_replace :: "byte list \<Rightarrow> string"
  docx_Document :: "string \<Rightarrow> (string list \<times> string list list list) option"
  fitz_open :: "string \<Rightarrow> string list option"
  open_output :: "string \<Rightarrow> bool"
  now_strftime :: string

text \<open>
  Strict decoding. The \<open>latin-1\<close> codec maps every byte to the code point of the same
  number and never fails; the other codecs are the environment's.
\<close>

definition decode :: "os_env \<Rightarrow> encoding \<Rightarrow> byte list \<Rightarrow> string option" where
  "decode env enc bs =
     (case enc of
        LATIN1 \<Rightarrow> Some (map (\<lambda>b. char_of (unat b)) bs)
      | _ \<Rightarrow> decode_strict env enc bs)"

section \<open>Reading and extraction\<close>

definition safe_relpath :: "os_env \<Rightarrow> string \<Rightarrow> string \<Rightarrow> string" where
  "safe_relpath env path start =
     (case relpath env path start of Some r \<Rightarrow> r | None \<Rightarrow> path)"

text \<open>
  The loop \<open>for enc in encodings\<close>, with the number \<open>k\<close> of the attempt: the first
  attempt that opens, reads and decodes returns its text, any exception moves on.
  \<open>None\<close> is the loop falling through.
\<close>

fun try_encodings :: "os_env \<Rightarrow> string \<Rightarrow> nat \<Rightarrow> encoding list \<Rightarrow> string option" where
  "try_encodings env path k [] = None"
| "try_encodings env path k (enc # encodings) =
     (case open_text env path k of
        None \<Rightarrow> try_encodings env path (Suc k) encodings
      | Some bs \<Rightarrow>
          (case decode env enc bs of
             None \<Rightarrow> try_encodings env path (Suc k) encodings
           | Some s \<Rightarrow> Some (normalize_newlines s)))"

definition default_encodings :: "encoding list" where
  "default_encodings = [UTF8, UTF8_SIG, LATIN1, CP1252]"

definition read_text_file :: "os_env \<Rightarrow> string \<Rightarrow> encoding list \<Rightarrow> string option" where
  "read_text_file env path encodings =
     (case try_encodings env path 0 encodings of
        Some s \<Rightarrow> Some s
      | None \<Rightarrow>
          (case open_text env path (length encodings) of
             None \<Rightarrow> None
           | Some bs \<Rightarrow> Some (normalize_newlines (decode_replace env bs))))"

text \<open>
  \<open>docx_Document env path\<close> is the paragraphs' texts and, for every table, the cells'
  texts row by row, or \<open>None\<close> when the library raises anywhere in the \<open>try\<close> block;
  \<open>fitz_open env path\<close> is the pages' texts.
\<close>

definition extract_docx_text :: "os_env \<Rightarrow> string \<Rightarrow> string option" where
  "extract_docx_text env path =
     (if \<not> HAS_PYTHON_DOCX env then None
      else (case docx_Document env path of
              None \<Rightarrow> None
            | Some (paragraphs, tables) \<Rightarrow>
                Some (str_join ''\<newline>''
                        (paragraphs @ concat (map (map (str_join [CHR 0x09])) tables)))))"

definition extract_pdf_text :: "os_env \<Rightarrow> string \<Rightarrow> string option" where
  "extract_pdf_text env path =
     (if \<not> HAS_PYMUPDF env then None
      else (case fitz_open env path of
              None \<Rightarrow> None
            | Some pages \<Rightarrow> Some (str_join ''\<newline>'' pages)))"

definition fence_for_ext :: "string \<Rightarrow> string \<times> string" where
  "fence_for_ext ext =
     (let lang = (case map_of EXT_TO_LANG (lower ext) of Some l \<Rightarrow> l | None \<Rightarrow> [])
      in if lang \<noteq> [] then (''```'' @ lang @ ''\<newline>'', ''\<newline>```\<newline>'')
         else (''```\<newline>'', ''\<newline>```\<newline>''))"

section \<open>Core processing: \<open>process_file\<close>\<close>

text \<open>
  The options as \<open>process_file\<close> and \<open>write_header\<close> read them, after \<open>main\<close> has
  normalised them: the extension lists and the ignored directories are sets.
\<close>

record args =
  include_hidden :: bool
  max_file_size :: int
  pdf :: bool
  docx :: bool
  only_ext :: "string set"
  skip_ext :: "string set"
  ignore_dirs :: "string set"

text \<open>\<open>size = os.path.getsize(path)\<close>, and -1 when that raises.\<close>

definition file_size :: "os_env \<Rightarrow> string \<Rightarrow> int" where
  "file_size env path = (case getsize env path of Some n \<Rightarrow> n | None \<Rightarrow> - 1)"

text \<open>
  The block \<open>if content is None:\<close> of \<open>process_file\<close>: the head read, the sniff for an
  extension outside \<open>PREFER_TEXT_EXTS\<close>, and the text read. Its two \<open>return None\<close> and
  the \<open>return None\<close> on a \<open>None\<close> content that follows are the result \<open>None\<close>.
\<close>

definition read_plain :: "os_env \<Rightarrow> string \<Rightarrow> string \<Rightarrow> string option" where
  "read_plain env path ext =
     (case open_rb_head env path of
        None \<Rightarrow> None
      | Some head \<Rightarrow>
          if ext \<notin> PREFER_TEXT_EXTS \<and> is_probably_binary head then None
          else read_text_file env path default_encodings)"

definition render_chunk :: "string \<Rightarrow> int \<Rightarrow> string \<Rightarrow> string \<Rightarrow> string" where
  "render_chunk rel size' ext content =
     (let content = normalize_newlines content;
          header = ''\<newline>===== FILE: '' @ rel @ '' (size='' @ str_int size'
                     @ '' bytes) =====\<newline>'';
          (open_fence, close_fence) = fence_for_ext ext
      in header @ open_fence @ content @ close_fence)"

text \<open>
  The two extraction steps of \<open>process_file\<close>: \<open>content\<close> after
  \<open>if ext in DOCX_EXTS and args.docx\<close> and
  \<open>if content is None and ext in PDF_EXTS and args.pdf\<close>.
\<close>

definition extract_content :: "os_env \<Rightarrow> string \<Rightarrow> string \<Rightarrow> args \<Rightarrow> string option" where
  "extract_content env path ext args =
     (let content = (if ext \<in> DOCX_EXTS \<and> docx args
                     then extract_docx_text env path else None)
      in if content = None \<and> ext \<in> PDF_EXTS \<and> pdf args
         then extract_pdf_text env path else content)"

definition process_file :: "os_env \<Rightarrow> string \<Rightarrow> string \<Rightarrow> args \<Rightarrow> string option" where
  "process_file env path root' args =
     (let ext = lower (snd (splitext path))
      in if ext \<in> ALWAYS_SKIP_EXTS \<and> \<not> (ext \<in> PDF_EXTS \<and> pdf args \<and> HAS_PYMUPDF env)
         then None
         else if (only_ext args \<noteq> {} \<and> ext \<notin> only_ext args)
                 \<or> (skip_ext args \<noteq> {} \<and> ext \<in> skip_ext args)
         then None
         else
           let size' = file_size env path
           in if max_file_size args \<noteq> 0 \<and> size' > max_file_size args then None
              else
                let rel = safe_relpath env path root';
                    content = extract_content env path ext args;
                    content = (if content = None then read_plain env path ext
                               else content)
                in (case content of
                      None \<Rightarrow> None
                    | Some text \<Rightarrow> Some (render_chunk rel size' ext text)))"

section \<open>Path Enumerator: \<open>iter_files\<close>\<close>

text \<open>
  \<open>os.walk(root, followlinks=False)\<close> top-down, fused with the body of the generator:
  at a directory the files that are kept are yielded first, in the order of
  \<open>filenames\<close>; \<open>os.walk\<close> then enters the directories left in \<open>dirnames\<close>, in order.
  \<open>iter_dirs\<close> is the loop \<open>for d in dirnames\<close> that fills \<open>keep_dirs\<close>, followed by
  the walk into each directory kept.
\<close>

fun iter_files :: "string \<Rightarrow> bool \<Rightarrow> string set \<Rightarrow> dir \<Rightarrow> string list"
  and iter_dirs :: "string \<Rightarrow> bool \<Rightarrow> string set \<Rightarrow> (string \<times> dir) list \<Rightarrow> string list"
where
  "iter_files dirpath include_hidden' ignored_dirs (Dir dirnames filenames) =
     map (path_join dirpath)
         (filter (\<lambda>fname. \<not> (\<not> include_hidden' \<and> startswith_dot fname)) filenames)
     @ iter_dirs dirpath include_hidden' ignored_dirs dirnames"
| "iter_dirs dirpath include_hidden' ignored_dirs [] = []"
| "iter_dirs dirpath include_hidden' ignored_dirs ((d, sub) # rest) =
     (if \<not> include_hidden' \<and> startswith_dot d
      then iter_dirs dirpath include_hidden' ignored_dirs rest
      else if d \<in> ignored_dirs
      then iter_dirs dirpath include_hidden' ignored_dirs rest
      else iter_files (path_join dirpath d) include_hidden' ignored_dirs sub
           @ iter_dirs dirpath include_hidden' ignored_dirs rest)"

text \<open>
  Every file of a listing with the names of the directories that lead to it from the
  root, outermost first: what "a file located under a directory" means. No pruning.
\<close>

fun all_files :: "dir \<Rightarrow> (string list \<times> string) list"
  and all_files_dirs :: "(string \<times> dir) list \<Rightarrow> (string list \<times> string) list"
where
  "all_files (Dir dirnames filenames) =
     map (\<lambda>fname. ([], fname)) filenames @ all_files_dirs dirnames"
| "all_files_dirs [] = []"
| "all_files_dirs ((d, sub) # rest) =
     map (\<lambda>(trail, fname). (d # trail, fname)) (all_files sub) @ all_files_dirs rest"

text \<open>The path \<open>iter_files\<close> builds for a file reached through \<open>trail\<close>.\<close>

definition path_of :: "string \<Rightarrow> string list \<times> string \<Rightarrow> string" where
  "path_of root' entry = path_join (foldl path_join root' (fst entry)) (snd entry)"

text \<open>
  The spec's rule for a file that is enumerated: no directory on the way to it is in
  the ignore set, and without hidden inclusion neither those directories nor the file
  start with a dot.
\<close>

definition spec_kept :: "bool \<Rightarrow> string set \<Rightarrow> string list \<times> string \<Rightarrow> bool" where
  "spec_kept include_hidden' ignored_dirs entry =
     (list_all (\<lambda>d. d \<notin> ignored_dirs \<and> (include_hidden' \<or> \<not> startswith_dot d)) (fst entry)
      \<and> (include_hidden' \<or> \<not> startswith_dot (snd entry)))"

section \<open>Pipeline Driver: \<open>main\<close>\<close>

text \<open>The output file written so far and the two counters.\<close>

record run_state =
  out :: string
  count_total :: int
  count_included :: int

text \<open>
  One iteration of \<open>for path in iter_files(...)\<close>: the state after each statement that
  changes it, in order. The last one is the state the next iteration starts from.
\<close>

definition loop_body_points ::
  "os_env \<Rightarrow> string \<Rightarrow> args \<Rightarrow> string \<Rightarrow> run_state \<Rightarrow> run_state list" where
  "loop_body_points env root' args path s =
     (let s1 = s\<lparr>count_total := count_total s + 1\<rparr>
      in (case process_file env path root' args of
            None \<Rightarrow> [s1]
          | Some chunk \<Rightarrow>
              let s2 = s1\<lparr>out := out s1 @ chunk\<rparr>;
                  s3 = (if \<not> endswith_newline chunk
                        then s2\<lparr>out := out s2 @ ''\<newline>''\<rparr> else s2);
                  s4 = s3\<lparr>count_included := count_included s3 + 1\<rparr>
              in [s1, s2, s3, s4]))"

definition loop_body :: "os_env \<Rightarrow> string \<Rightarrow> args \<Rightarrow> string \<Rightarrow> run_state \<Rightarrow> run_state" where
  "loop_body env root' args path s = last (loop_body_points env root' args path s)"

fun main_loop :: "os_env \<Rightarrow> string \<Rightarrow> args \<Rightarrow> string list \<Rightarrow> run_state \<Rightarrow> run_state" where
  "main_loop env root' args [] s = s"
| "main_loop env root' args (path # paths) s =
     main_loop env root' args paths (loop_body env root' args path s)"

text \<open>Every state the loop passes through, from the one it starts in.\<close>

fun main_loop_points ::
  "os_env \<Rightarrow> string \<Rightarrow> args \<Rightarrow> string list \<Rightarrow> run_state \<Rightarrow> run_state list" where
  "main_loop_points env root' args [] s = [s]"
| "main_loop_points env root' args (path # paths) s =
     s # loop_body_points env root' args path s
     @ main_loop_points env root' args paths (loop_body env root' args path s)"

subsection \<open>\<open>textwrap.dedent\<close>\<close>

text \<open>
  \<open>textwrap.dedent\<close> as CPython has it up to 3.13, read line by line: a line of blanks
  and tabs only becomes empty; the margin is the longest common prefix of the leading
  blanks and tabs of the other non-empty lines; a non-empty margin is removed from the
  start of every line that starts with it.
\<close>

definition is_blank :: "char \<Rightarrow> bool" where
  "is_blank c = (c = CHR '' '' \<or> c = CHR 0x09)"

text \<open>\<open>text.split('\n')\<close>; the result is never empty, so the second case never applies.\<close>

fun split_lines :: "string \<Rightarrow> string list" where
  "split_lines [] = [[]]"
| "split_lines (c # s) =
     (if c = CHR ''\<newline>'' then [] # split_lines s
      else (case split_lines s of
              l # ls \<Rightarrow> (c # l) # ls
            | [] \<Rightarrow> [[c]]))"

definition startswith :: "string \<Rightarrow> string \<Rightarrow> bool" where
  "startswith s p = (take (length p) s = p)"

fun common_prefix :: "string \<Rightarrow> string \<Rightarrow> string" where
  "common_prefix (x # xs) (y # ys) = (if x = y then x # common_prefix xs ys else [])"
| "common_prefix xs ys = []"

text \<open>The body of \<open>for indent in indents\<close>; \<open>None\<close> is \<open>margin is None\<close>.\<close>

definition margin_step :: "string \<Rightarrow> string option \<Rightarrow> string option" where
  "margin_step indent margin =
     (case margin of
        None \<Rightarrow> Some indent
      | Some m \<Rightarrow>
          if startswith indent m then Some m
          else if startswith m indent then Some indent
          else Some (common_prefix m indent))"

text \<open>
  The three regular expressions, each on one line of the text:
  \<open>_whitespace_only_re.sub('', text)\<close> empties a line of blanks,
  \<open>_leading_whitespace_re.findall(text)\<close> gives the leading blanks of every line that has
  another character, and \<open>re.sub(r'(?m)^' + margin, '', text)\<close> removes the margin from a
  line that starts with it.
\<close>

definition blank_to_empty :: "string \<Rightarrow> string" where
  "blank_to_empty l = (if l \<noteq> [] \<and> list_all is_blank l then [] else l)"

definition indents_of :: "string list \<Rightarrow> string list" where
  "indents_of lines = map (takeWhile is_blank) (filter (\<lambda>l. \<not> list_all is_blank l) lines)"

definition remove_margin :: "string \<Rightarrow> string \<Rightarrow> string" where
  "remove_margin m l = (if startswith l m then drop (length m) l else l)"

definition dedent :: "string \<Rightarrow> string" where
  "dedent text =
     (let lines = map blank_to_empty (split_lines text);
          margin = fold margin_step (indents_of lines) None
      in (case margin of
            None \<Rightarrow> str_join ''\<newline>'' lines
          | Some m \<Rightarrow>
              if m = [] then str_join ''\<newline>'' lines
              else str_join ''\<newline>'' (map (remove_margin m) lines)))"

subsection \<open>\<open>write_header\<close> and \<open>main\<close>\<close>

definition str_bool :: "bool \<Rightarrow> string" where
  "str_bool b = (if b then ''True'' else ''False'')"

text \<open>\<open>', '.join(sorted(s))\<close> of a set of strings\<close>

definition join_sorted :: "string set \<Rightarrow> string" where
  "join_sorted s = str_join '', '' (sorted_list_of_set s)"

text \<open>
  The f-string of \<open>write_header\<close>, before \<open>textwrap.dedent\<close>, in three parts: the lines
  before the one with the time, that line, and the lines after it. The time is
  \<open>datetime.now().strftime('%Y-%m-%d %H:%M:%S')\<close>, which the environment gives.
\<close>

definition header_top :: "os_env \<Rightarrow> string \<Rightarrow> string" where
  "header_top env root' =
     ''\<newline>''
     @ ''    =============================================='' @ ''\<newline>''
     @ ''    Repo to Text Export'' @ ''\<newline>''
     @ ''    Root: '' @ abspath env root'"

definition header_bottom :: "os_env \<Rightarrow> args \<Rightarrow> string" where
  "header_bottom env args =
     ''    Include hidden: '' @ str_bool (include_hidden args) @ ''\<newline>''
     @ ''    Max file size (bytes): ''
       @ (if max_file_size args \<noteq> 0 then str_int (max_file_size args) else ''None'')
       @ ''\<newline>''
     @ ''    PDF extraction enabled: '' @ str_bool (pdf args \<and> HAS_PYMUPDF env)
       @ ''\<newline>''
     @ ''    DOCX extraction enabled: '' @ str_bool (docx args \<and> HAS_PYTHON_DOCX env)
       @ ''\<newline>''
     @ ''    Ignored dirs: '' @ join_sorted (ignore_dirs args) @ ''\<newline>''
     @ ''    Only extensions: ''
       @ (if only_ext args \<noteq> {} then join_sorted (only_ext args) else ''None'')
       @ ''\<newline>''
     @ ''    Skipped extensions: ''
       @ (if skip_ext args \<noteq> {} then join_sorted (skip_ext args) else ''None'')
       @ ''\<newline>''
     @ ''    =============================================='' @ ''\<newline>''
     @ ''    ''"

definition header_text :: "os_env \<Rightarrow> string \<Rightarrow> args \<Rightarrow> string" where
  "header_text env root' args =
     header_top env root' @ ''\<newline>''
     @ ''    Generated: (local time) '' @ now_strftime env @ ''\<newline>''
     @ header_bottom env args"

text \<open>What \<open>write_header\<close> writes: \<open>meta + "\n"\<close>.\<close>

definition write_header :: "os_env \<Rightarrow> string \<Rightarrow> args \<Rightarrow> string" where
  "write_header env root' args = dedent (header_text env root' args) @ ''\<newline>''"

text \<open>The Namespace \<open>parse_args\<close> returns, before \<open>main\<close> normalises it.\<close>

record namespace =
  ns_root :: string
  ns_output :: string
  ns_include_hidden :: bool
  ns_no_default_ignores :: bool
  ns_ignore_dir :: "string list"
  ns_max_file_size :: int
  ns_pdf :: bool
  ns_docx :: bool
  ns_only_ext :: "string list"
  ns_skip_ext :: "string list"

text \<open>\<open>set(e.lower() for e in set(e if e.startswith('.') else f'.{e}' for e in exts))\<close>\<close>

definition normalize_exts :: "string list \<Rightarrow> string set" where
  "normalize_exts exts =
     lower ` (\<lambda>e. if startswith_dot e then e else ''.'' @ e) ` set exts"

definition make_args :: "namespace \<Rightarrow> args" where
  "make_args ns =
     \<lparr> include_hidden = ns_include_hidden ns,
       max_file_size = (if ns_max_file_size ns \<le> 0 then 0 else ns_max_file_size ns),
       pdf = ns_pdf ns,
       docx = ns_docx ns,
       only_ext = normalize_exts (ns_only_ext ns),
       skip_ext = normalize_exts (ns_skip_ext ns),
       ignore_dirs = set (ns_ignore_dir ns)
                     \<union> (if \<not> ns_no_default_ignores ns then DEFAULT_IGNORED_DIRS else {}) \<rparr>"

text \<open>The trailer \<open>main\<close> writes after the loop.\<close>

definition summary :: "run_state \<Rightarrow> string" where
  "summary s =
     ''\<newline>===== SUMMARY =====\<newline>''
     @ ''Files scanned: '' @ str_int (count_total s) @ ''\<newline>''
     @ ''Files included: '' @ str_int (count_included s) @ ''\<newline>''"

text \<open>
  \<open>main\<close> ends in one of three ways: \<open>return 2\<close> when the root is not a directory, an
  exception when the output file cannot be opened, \<open>return 0\<close> with the output file
  written and the counters as printed.
\<close>

datatype error = NotADirectory | OutputNotWritable

definition scanned_paths :: "os_env \<Rightarrow> string \<Rightarrow> args \<Rightarrow> string list" where
  "scanned_paths env root' args =
     iter_files root' (include_hidden args) (ignore_dirs args) (walk env root')"

definition main :: "os_env \<Rightarrow> namespace \<Rightarrow> error + run_state" where
  "main env ns =
     (let root' = abspath env (ns_root ns)
      in if \<not> isdir env root' then Inl NotADirectory
         else
           let args = make_args ns
           in if \<not> open_output env (ns_output ns) then Inl OutputNotWritable
              else
                let s0 = \<lparr> out = write_header env root' args,
                           count_total = 0, count_included = 0 \<rparr>;
                    s = main_loop env root' args (scanned_paths env root' args) s0
                in Inr (s\<lparr>out := out s @ summary s\<rparr>))"

section \<open>Notions the properties are stated with\<close>

text \<open>
  \<open>read_text_file\<close> with the default encodings opens the file five times, attempts 0 to 3
  for the four encodings and attempt 4 for the last resort. "Fails" and "succeeds" are
  about the operating system: whether the attempt gets the file's bytes.
\<close>

text \<open>The margin \<open>dedent\<close> removes from the lines, empty when it removes none.\<close>

definition margin_of :: "string list \<Rightarrow> string" where
  "margin_of lines =
     (case fold margin_step (indents_of lines) None of None \<Rightarrow> [] | Some m \<Rightarrow> m)"

text \<open>What one iteration of the loop of \<open>main\<close> appends to the output file.\<close>

definition written :: "os_env \<Rightarrow> string \<Rightarrow> args \<Rightarrow> string \<Rightarrow> string" where
  "written env root' args path =
     (case process_file env path root' args of
        None \<Rightarrow> []
      | Some chunk \<Rightarrow> if endswith_newline chunk then chunk else chunk @ ''\<newline>'')"

definition all_text_reads_fail :: "os_env \<Rightarrow> string \<Rightarrow> bool" where
  "all_text_reads_fail env path = (\<forall>k \<in> {0, 1, 2, 3, 4}. open_text env path k = None)"

definition all_text_reads_succeed :: "os_env \<Rightarrow> string \<Rightarrow> bool" where
  "all_text_reads_succeed env path = (\<forall>k \<in> {0, 1, 2, 3, 4}. open_text env path k \<noteq> None)"

section \<open>An example environment\<close>

text \<open>
  A small world for evaluating the program: the root \<open>/r\<close> with \<open>a.py\<close>, \<open>b.png\<close>, a
  directory \<open>src\<close> holding \<open>m.py\<close> and a directory \<open>node_modules\<close> holding \<open>x.js\<close>.
  Three more paths answer as a file does that
  changes or is protected while the program runs: \<open>/r/locked.py\<close> has a size and cannot
  be opened, \<open>/r/nosize.py\<close> can be opened and its size cannot be read, and
  \<open>/r/flaky.txt\<close>, one byte 0x81, fails to open at the third and the fifth attempt.
  The strict codecs of the example accept 7-bit input only, where utf-8, utf-8-sig and
  cp1252 agree; Python's three codecs reject the byte 0x81 as well.
\<close>

definition ascii_codec :: "byte list \<Rightarrow> string option" where
  "ascii_codec bs =
     (if list_all (\<lambda>b. b < 0x80) bs then Some (map (\<lambda>b. char_of (unat b)) bs) else None)"

definition example_source :: "byte list" where
  "example_source = [0x78, 0x20, 0x3D, 0x20, 0x31, 0x0D, 0x0A]"

definition example_env :: os_env where
  "example_env =
     \<lparr> HAS_PYMUPDF = False,
       HAS_PYTHON_DOCX = False,
       getsize = (\<lambda>p. if p = ''/r/a.py'' \<or> p = ''/r/src/m.py'' \<or> p = ''/r/locked.py''
                       then Some 7
                       else if p = ''/r/b.png'' then Some 4
                       else if p = ''/r/flaky.txt'' then Some 1
                       else None),
       relpath = (\<lambda>p start. Some (drop (Suc (length start)) p)),
       abspath = (\<lambda>p. p),
       isdir = (\<lambda>p. p = ''/r''),
       walk = (\<lambda>p. Dir [(''src'', Dir [] [''m.py'']), (''node_modules'', Dir [] [''x.js''])]
                      [''a.py'', ''b.png'']),
       open_rb_head =
         (\<lambda>p. if p = ''/r/a.py'' \<or> p = ''/r/src/m.py'' \<or> p = ''/r/nosize.py''
               then Some example_source
               else if p = ''/r/b.png'' then Some [0x89, 0x50, 0x4E, 0x47]
               else if p = ''/r/flaky.txt'' then Some [0x81]
               else None),
       open_text =
         (\<lambda>p k. if p = ''/r/a.py'' \<or> p = ''/r/src/m.py'' \<or> p = ''/r/nosize.py''
                 then Some example_source
                 else if p = ''/r/flaky.txt'' \<and> k \<noteq> 2 \<and> k \<noteq> 4 then Some [0x81]
                 else None),
       decode_strict = (\<lambda>enc. ascii_codec),
       decode_replace = map (\<lambda>b. if b < 0x80 then char_of (unat b) else CHR ''?''),
       docx_Document = (\<lambda>p. None),
       fitz_open = (\<lambda>p. None),
       open_output = (\<lambda>p. True),
       now_strftime = ''2024-01-01 00:00:00'' \<rparr>"

definition example_ns :: namespace where
  "example_ns =
     \<lparr> ns_root = ''/r'', ns_output = ''repo_dump.txt'', ns_include_hidden = False,
       ns_no_default_ignores = False, ns_ignore_dir = [], ns_max_file_size = 0,
       ns_pdf = False, ns_docx = False, ns_only_ext = [], ns_skip_ext = [] \<rparr>"

definition example_args :: args where
  "example_args = make_args example_ns"

section \<open>Binary Sniffer: properties\<close>

lemma scan_sample_zero: "0 \<in> set bs \<Longrightarrow> scan_sample bs n = None"
  by (induction bs n rule: scan_sample.induct) auto

lemma scan_sample_count:
  "0 \<notin> set bs \<Longrightarrow> scan_sample bs n = Some (n + spec_suspicious_count bs)"
  by (induction bs n rule: scan_sample.induct)
     (auto simp: spec_suspicious_count_def spec_suspicious_def text_whitelist_def)

lemma ratio_gt_030:
  "0 < n \<Longrightarrow> (real s / real n > 0.30) = (10 * s > 3 * n)"
proof -
  assume n: "0 < n"
  have "(real s / real n > 0.30) = (0.30 * real n < real s)"
    using n by (simp add: pos_less_divide_eq)
  also have "\<dots> = (real (3 * n) < real (10 * s))"
    by (simp add: mult.commute)
  also have "\<dots> = (3 * n < 10 * s)"
    by (simp only: of_nat_less_iff)
  finally show ?thesis .
qed

lemma high_bytes_suspicious: "127 \<le> b \<Longrightarrow> spec_suspicious (b :: byte)"
proof -
  assume h: "127 \<le> b"
  have "\<not> b \<le> 126" using h by (simp add: word_le_nat_alt)
  moreover have "b \<notin> {0x09, 0x0A, 0x0D, 0x0C, 0x08}"
    using h by (auto simp: word_le_nat_alt)
  ultimately show ?thesis by (simp add: spec_suspicious_def)
qed

lemma high_bytes_le_count:
  "length (filter (\<lambda>b. 127 \<le> b) sample) \<le> spec_suspicious_count sample"
  unfolding spec_suspicious_count_def
  by (induction sample) (auto simp: high_bytes_suspicious)

text \<open>
  C4. Every sample that contains a zero byte is classified binary, whatever its other
  bytes are.
\<close>

theorem zero_byte_is_binary:
  "0 \<in> set sample \<Longrightarrow> is_probably_binary sample"
  by (auto simp: is_probably_binary_def)

theorem zero_byte_is_binary_witness:
  "(0 :: byte) \<in> set [0x41, 0x00, 0x42] \<and> is_probably_binary [0x41, 0x00, 0x42]"
  using zero_byte_is_binary [of "[0x41, 0x00, 0x42]"] by simp

text \<open>
  C5. On a non-empty sample without a zero byte the verdict is binary exactly when the
  number of suspicious bytes (in the spec's wording) is strictly more than 30 percent
  of the sample length; in particular a sample with more than 30 percent of its bytes
  in 0x7F to 0xFF is binary.
\<close>

theorem binary_iff_over_30_percent:
  assumes "sample \<noteq> []" and "0 \<notin> set sample"
  shows "(is_probably_binary sample
            \<longleftrightarrow> 10 * spec_suspicious_count sample > 3 * length sample)
       \<and> (10 * length (filter (\<lambda>b. 0x7F \<le> b) sample) > 3 * length sample
            \<longrightarrow> is_probably_binary sample)"
proof -
  have len: "0 < max 1 (length sample)" by simp
  have m: "max 1 (length sample) = length sample"
    using assms(1) by (cases sample) auto
  have iff: "is_probably_binary sample
      \<longleftrightarrow> 10 * spec_suspicious_count sample > 3 * length sample"
    using assms scan_sample_count [OF assms(2), of 0] ratio_gt_030 [OF len] m
    by (simp add: is_probably_binary_def)
  have "10 * length (filter (\<lambda>b. 0x7F \<le> b) sample) \<le> 10 * spec_suspicious_count sample"
    using high_bytes_le_count [of sample] by simp
  with iff show ?thesis by auto
qed

theorem binary_iff_over_30_percent_witness:
  "[0xC3, 0xA9, 0x41 :: byte] \<noteq> [] \<and> 0 \<notin> set [0xC3, 0xA9, 0x41 :: byte]
   \<and> is_probably_binary [0xC3, 0xA9, 0x41]
   \<and> spec_suspicious_count [0xC3, 0xA9, 0x41] = 2"
proof -
  have a: "[0xC3, 0xA9, 0x41 :: byte] \<noteq> []" by simp
  have b: "0 \<notin> set [0xC3, 0xA9, 0x41 :: byte]" by simp
  have c: "spec_suspicious_count [0xC3, 0xA9, 0x41] = 2"
    by (simp add: spec_suspicious_count_def spec_suspicious_def)
  show ?thesis
    using binary_iff_over_30_percent [OF a b] a b c by simp
qed

section \<open>Pipeline Driver: the counters\<close>

lemma try_encodings_getsize:
  "try_encodings (env\<lparr>getsize := g\<rparr>) path k encodings = try_encodings env path k encodings"
  by (induction encodings arbitrary: k)
     (auto simp: decode_def split: option.splits encoding.splits)

lemma loop_body_count_total:
  "count_total (loop_body env root' args path s) = count_total s + 1"
  by (simp add: loop_body_def loop_body_points_def Let_def split: option.splits)

lemma main_loop_count_total:
  "count_total (main_loop env root' args paths s) = count_total s + int (length paths)"
  by (induction paths arbitrary: s) (simp_all add: loop_body_count_total)

lemma loop_body_points_invariant:
  assumes "count_included s \<le> count_total s"
      and "t \<in> set (loop_body_points env root' args path s)"
  shows "count_included t \<le> count_total t"
  using assms
  by (auto simp: loop_body_points_def Let_def split: option.splits if_splits)

lemma loop_body_invariant:
  "count_included s \<le> count_total s
   \<Longrightarrow> count_included (loop_body env root' args path s)
        \<le> count_total (loop_body env root' args path s)"
  by (auto simp: loop_body_def loop_body_points_def Let_def split: option.splits)

lemma main_loop_points_invariant:
  "count_included s \<le> count_total s
   \<Longrightarrow> t \<in> set (main_loop_points env root' args paths s)
   \<Longrightarrow> count_included t \<le> count_total t"
proof (induction paths arbitrary: s)
  case Nil
  then show ?case by simp
next
  case (Cons path paths)
  from Cons.prems(2) consider
      "t = s"
    | "t \<in> set (loop_body_points env root' args path s)"
    | "t \<in> set (main_loop_points env root' args paths (loop_body env root' args path s))"
    by auto
  then show ?case
  proof cases
    case 1
    with Cons.prems(1) show ?thesis by simp
  next
    case 2
    with Cons.prems(1) show ?thesis by (rule loop_body_points_invariant)
  next
    case 3
    with Cons.IH [OF loop_body_invariant [OF Cons.prems(1)]] show ?thesis by simp
  qed
qed

lemma main_loop_in_points:
  "main_loop env root' args paths s \<in> set (main_loop_points env root' args paths s)"
  by (induction paths arbitrary: s) simp_all

section \<open>Content Extractor: properties\<close>

lemma prefer_skip_disjoint: "PREFER_TEXT_EXTS \<inter> ALWAYS_SKIP_EXTS = {}"
  by (simp add: PREFER_TEXT_EXTS_def ALWAYS_SKIP_EXTS_def)

lemma prefer_not_skip: "ext \<in> PREFER_TEXT_EXTS \<Longrightarrow> ext \<notin> ALWAYS_SKIP_EXTS"
  using prefer_skip_disjoint by blast

lemma prefer_not_docx: "ext \<in> PREFER_TEXT_EXTS \<Longrightarrow> ext \<notin> DOCX_EXTS"
proof -
  have "''.docx'' \<notin> PREFER_TEXT_EXTS" by (simp add: PREFER_TEXT_EXTS_def)
  then show "ext \<in> PREFER_TEXT_EXTS \<Longrightarrow> ext \<notin> DOCX_EXTS"
    by (auto simp: DOCX_EXTS_def)
qed

lemma prefer_not_pdf: "ext \<in> PREFER_TEXT_EXTS \<Longrightarrow> ext \<notin> PDF_EXTS"
proof -
  have "''.pdf'' \<notin> PREFER_TEXT_EXTS" by (simp add: PREFER_TEXT_EXTS_def)
  then show "ext \<in> PREFER_TEXT_EXTS \<Longrightarrow> ext \<notin> PDF_EXTS"
    by (auto simp: PDF_EXTS_def)
qed

lemma extract_content_prefer:
  "ext \<in> PREFER_TEXT_EXTS \<Longrightarrow> extract_content env path ext args = None"
  by (simp add: extract_content_def prefer_not_docx prefer_not_pdf)

lemma read_plain_prefer:
  "ext \<in> PREFER_TEXT_EXTS \<Longrightarrow>
   read_plain env path ext =
     (if open_rb_head env path = None then None
      else read_text_file env path default_encodings)"
  by (simp add: read_plain_def split: option.splits)

lemma read_plain_head_fails: "open_rb_head env path = None \<Longrightarrow> read_plain env path ext = None"
  by (simp add: read_plain_def)

lemma read_text_file_latin1:
  "open_text env path 2 \<noteq> None \<Longrightarrow> read_text_file env path default_encodings \<noteq> None"
  by (auto simp: read_text_file_def default_encodings_def decode_def eval_nat_numeral
           split: option.splits)

lemma read_text_file_last_resort:
  "open_text env path 4 \<noteq> None \<Longrightarrow> read_text_file env path default_encodings \<noteq> None"
  by (auto simp: read_text_file_def default_encodings_def eval_nat_numeral
           split: option.splits)

lemma read_text_file_all_fail:
  "all_text_reads_fail env path \<Longrightarrow> read_text_file env path default_encodings = None"
  by (auto simp: read_text_file_def default_encodings_def all_text_reads_fail_def
                 eval_nat_numeral split: option.splits)

lemma read_plain_all_fail: "all_text_reads_fail env path \<Longrightarrow> read_plain env path ext = None"
  by (simp add: read_plain_def read_text_file_all_fail split: option.splits)

lemma extract_content_max:
  "extract_content env path ext (args\<lparr>max_file_size := m\<rparr>) = extract_content env path ext args"
  by (simp add: extract_content_def Let_def)

lemma extract_docx_text_getsize:
  "extract_docx_text (env\<lparr>getsize := g\<rparr>) path = extract_docx_text env path"
  by (simp add: extract_docx_text_def)

lemma extract_pdf_text_getsize:
  "extract_pdf_text (env\<lparr>getsize := g\<rparr>) path = extract_pdf_text env path"
  by (simp add: extract_pdf_text_def)

lemma extract_content_getsize:
  "extract_content (env\<lparr>getsize := g\<rparr>) path ext args = extract_content env path ext args"
  by (simp add: extract_content_def Let_def extract_docx_text_getsize extract_pdf_text_getsize)

lemma read_text_file_getsize:
  "read_text_file (env\<lparr>getsize := g\<rparr>) path encodings = read_text_file env path encodings"
  by (simp add: read_text_file_def try_encodings_getsize cong: option.case_cong)

lemma read_plain_getsize:
  "read_plain (env\<lparr>getsize := g\<rparr>) path ext = read_plain env path ext"
  by (simp add: read_plain_def read_text_file_getsize cong: option.case_cong if_cong)

lemma process_file_getsize:
  assumes "getsize env path = None"
  shows "process_file (env\<lparr>getsize := (getsize env)(path := Some (- 1))\<rparr>) path root' args
         = process_file env path root' args"
proof -
  let ?env = "env\<lparr>getsize := (getsize env)(path := Some (- 1))\<rparr>"
  have fs: "file_size ?env path = file_size env path"
    using assms by (simp add: file_size_def)
  have sr: "safe_relpath ?env path root' = safe_relpath env path root'"
    by (simp add: safe_relpath_def)
  show ?thesis
    by (simp add: process_file_def Let_def fs sr extract_content_getsize read_plain_getsize
             cong: if_cong split del: if_split)
qed

lemma process_file_no_content:
  assumes "extract_content env path (lower (snd (splitext path))) args = None"
      and "read_plain env path (lower (snd (splitext path))) = None"
  shows "process_file env path root' args = None"
  using assms by (simp add: process_file_def Let_def)

text \<open>
  C1, as the spec has it, fails: a file with a prefer-text extension, under the size
  ceiling and excluded by neither list, that cannot be opened (here \<open>/r/locked.py\<close>, which
  has a size of 7 bytes and refuses every open) is not included.
\<close>

theorem prefer_text_unreadable_excluded:
  "lower (snd (splitext ''/r/locked.py'')) \<in> PREFER_TEXT_EXTS
   \<and> file_size example_env ''/r/locked.py'' \<le> max_file_size (example_args\<lparr>max_file_size := 100\<rparr>)
   \<and> only_ext (example_args\<lparr>max_file_size := 100\<rparr>) = {}
   \<and> skip_ext (example_args\<lparr>max_file_size := 100\<rparr>) = {}
   \<and> process_file example_env ''/r/locked.py'' ''/r'' (example_args\<lparr>max_file_size := 100\<rparr>)
       = None"
  by code_simp

text \<open>
  C1, amended. For a path whose lowercase extension is in the prefer-text set, whose size
  does not exceed the ceiling (or with no ceiling) and which neither list excludes,
  \<open>process_file\<close> returns no text when the head read fails, and otherwise the rendered
  chunk of whatever \<open>read_text_file\<close> returns; in particular the file is included
  whenever the head read and every text read succeed.
\<close>

theorem prefer_text_included:
  assumes "lower (snd (splitext path)) \<in> PREFER_TEXT_EXTS"
      and "max_file_size args = 0 \<or> file_size env path \<le> max_file_size args"
      and "only_ext args = {} \<or> lower (snd (splitext path)) \<in> only_ext args"
      and "lower (snd (splitext path)) \<notin> skip_ext args"
  shows "process_file env path root' args =
           (if open_rb_head env path = None then None
            else map_option
                   (render_chunk (safe_relpath env path root') (file_size env path)
                      (lower (snd (splitext path))))
                   (read_text_file env path default_encodings))
         \<and> (open_rb_head env path \<noteq> None \<and> all_text_reads_succeed env path
              \<longrightarrow> process_file env path root' args \<noteq> None)"
proof -
  let ?ext = "lower (snd (splitext path))"
  have eq: "process_file env path root' args =
           (if open_rb_head env path = None then None
            else map_option
                   (render_chunk (safe_relpath env path root') (file_size env path) ?ext)
                   (read_text_file env path default_encodings))"
    using assms prefer_not_skip [OF assms(1)]
    by (auto simp: process_file_def Let_def extract_content_prefer read_plain_prefer
             split: option.splits)
  have "all_text_reads_succeed env path \<Longrightarrow> read_text_file env path default_encodings \<noteq> None"
    using read_text_file_latin1 [of env path] by (simp add: all_text_reads_succeed_def)
  with eq show ?thesis by auto
qed

theorem prefer_text_included_witness:
  "lower (snd (splitext ''/r/a.py'')) \<in> PREFER_TEXT_EXTS
   \<and> (max_file_size example_args = 0
        \<or> file_size example_env ''/r/a.py'' \<le> max_file_size example_args)
   \<and> (only_ext example_args = {} \<or> lower (snd (splitext ''/r/a.py'')) \<in> only_ext example_args)
   \<and> lower (snd (splitext ''/r/a.py'')) \<notin> skip_ext example_args
   \<and> open_rb_head example_env ''/r/a.py'' \<noteq> None
   \<and> all_text_reads_succeed example_env ''/r/a.py''
   \<and> process_file example_env ''/r/a.py'' ''/r'' example_args \<noteq> None"
proof -
  have h1: "lower (snd (splitext ''/r/a.py'')) \<in> PREFER_TEXT_EXTS" by code_simp
  have h2: "max_file_size example_args = 0
        \<or> file_size example_env ''/r/a.py'' \<le> max_file_size example_args" by code_simp
  have h3: "only_ext example_args = {}
        \<or> lower (snd (splitext ''/r/a.py'')) \<in> only_ext example_args" by code_simp
  have h4: "lower (snd (splitext ''/r/a.py'')) \<notin> skip_ext example_args" by code_simp
  have r1: "open_rb_head example_env ''/r/a.py'' \<noteq> None" by code_simp
  have r2: "all_text_reads_succeed example_env ''/r/a.py''" by code_simp
  have "process_file example_env ''/r/a.py'' ''/r'' example_args \<noteq> None"
    using prefer_text_included [OF h1 h2 h3 h4, of "''/r''"] r1 r2 by blast
  with h1 h2 h3 h4 r1 r2 show ?thesis by blast
qed

text \<open>
  C2. A path whose lowercase extension is in both the allow-list and the deny-list is
  excluded: the deny-list takes precedence.
\<close>

theorem deny_list_wins:
  assumes "lower (snd (splitext path)) \<in> only_ext args"
      and "lower (snd (splitext path)) \<in> skip_ext args"
  shows "process_file env path root' args = None"
proof -
  have "skip_ext args \<noteq> {}" using assms(2) by auto
  with assms(2) show ?thesis by (simp add: process_file_def Let_def)
qed

theorem deny_list_wins_witness:
  "lower (snd (splitext ''/r/a.py'')) \<in> only_ext (example_args\<lparr>only_ext := {''.py''}, skip_ext := {''.py''}\<rparr>)
   \<and> lower (snd (splitext ''/r/a.py'')) \<in> skip_ext (example_args\<lparr>only_ext := {''.py''}, skip_ext := {''.py''}\<rparr>)
   \<and> process_file example_env ''/r/a.py'' ''/r''
        (example_args\<lparr>only_ext := {''.py''}, skip_ext := {''.py''}\<rparr>) = None
   \<and> process_file example_env ''/r/a.py'' ''/r'' (example_args\<lparr>only_ext := {''.py''}\<rparr>) \<noteq> None"
proof -
  let ?args = "example_args\<lparr>only_ext := {''.py''}, skip_ext := {''.py''}\<rparr>"
  have h1: "lower (snd (splitext ''/r/a.py'')) \<in> only_ext ?args" by code_simp
  have h2: "lower (snd (splitext ''/r/a.py'')) \<in> skip_ext ?args" by code_simp
  have h3: "process_file example_env ''/r/a.py'' ''/r'' (example_args\<lparr>only_ext := {''.py''}\<rparr>)
              \<noteq> None" by code_simp
  show ?thesis
    using deny_list_wins [OF h1 h2, of example_env "''/r''"] h1 h2 h3 by blast
qed

text \<open>
  C6. A file whose size strictly exceeds a nonzero ceiling is excluded. With the ceiling
  0 the size check excludes nothing: the outcome is the one under any ceiling the file
  does not exceed, so the file is included when the other filters let it through.
\<close>

theorem size_ceiling:
  "(max_file_size args \<noteq> 0 \<and> file_size env path > max_file_size args
      \<longrightarrow> process_file env path root' args = None)
   \<and> (file_size env path \<le> c
      \<longrightarrow> process_file env path root' (args\<lparr>max_file_size := 0\<rparr>)
          = process_file env path root' (args\<lparr>max_file_size := c\<rparr>))"
proof -
  have a: "max_file_size args \<noteq> 0 \<and> file_size env path > max_file_size args
      \<longrightarrow> process_file env path root' args = None"
    by (simp add: process_file_def Let_def)
  have b: "file_size env path \<le> c
      \<longrightarrow> process_file env path root' (args\<lparr>max_file_size := 0\<rparr>)
          = process_file env path root' (args\<lparr>max_file_size := c\<rparr>)"
    by (simp add: process_file_def Let_def extract_content_max cong: if_cong split del: if_split)
  show ?thesis using a b by blast
qed

theorem size_ceiling_witness:
  "max_file_size (example_args\<lparr>max_file_size := 5\<rparr>) \<noteq> 0
   \<and> file_size example_env ''/r/a.py'' > max_file_size (example_args\<lparr>max_file_size := 5\<rparr>)
   \<and> file_size example_env ''/r/a.py'' \<le> 10
   \<and> process_file example_env ''/r/a.py'' ''/r'' (example_args\<lparr>max_file_size := 5\<rparr>) = None
   \<and> process_file example_env ''/r/a.py'' ''/r'' (example_args\<lparr>max_file_size := 5, max_file_size := 0\<rparr>)
       = process_file example_env ''/r/a.py'' ''/r'' (example_args\<lparr>max_file_size := 5, max_file_size := 10\<rparr>)
   \<and> process_file example_env ''/r/a.py'' ''/r'' (example_args\<lparr>max_file_size := 5, max_file_size := 0\<rparr>)
       \<noteq> None"
proof -
  let ?args = "example_args\<lparr>max_file_size := 5\<rparr>"
  have h1: "max_file_size ?args \<noteq> 0" by code_simp
  have h2: "file_size example_env ''/r/a.py'' > max_file_size ?args" by code_simp
  have h3: "file_size example_env ''/r/a.py'' \<le> 10" by code_simp
  have h4: "process_file example_env ''/r/a.py'' ''/r'' (?args\<lparr>max_file_size := 0\<rparr>) \<noteq> None"
    by code_simp
  show ?thesis
    using size_ceiling [of ?args example_env "''/r/a.py''" "''/r''" 10] h1 h2 h3 h4 by blast
qed

text \<open>
  C8, as the spec has it, fails for an unreadable size: \<open>os.path.getsize\<close> raising is
  caught, the size becomes -1 and processing goes on, so a path whose size cannot be
  read and whose content can (here \<open>/r/nosize.py\<close>) is included.
\<close>

theorem unreadable_size_included:
  "getsize example_env ''/r/nosize.py'' = None
   \<and> process_file example_env ''/r/nosize.py'' ''/r'' example_args \<noteq> None"
  by code_simp

text \<open>
  C8, amended. When no text was extracted from a document, a failed head read gives no
  text, and so do text reads that all fail. An unreadable size is caught too and does
  not by itself exclude the file: the path is processed as one of size -1. No branch
  of \<open>process_file\<close> fails, and the loop goes on to the paths that follow: after it, the
  scanned counter has grown by the number of paths.
\<close>

theorem filesystem_errors_caught:
  "(extract_content env path (lower (snd (splitext path))) args = None
      \<and> open_rb_head env path = None
      \<longrightarrow> process_file env path root' args = None)
   \<and> (extract_content env path (lower (snd (splitext path))) args = None
      \<and> all_text_reads_fail env path
      \<longrightarrow> process_file env path root' args = None)
   \<and> (getsize env path = None
      \<longrightarrow> process_file env path root' args
          = process_file (env\<lparr>getsize := (getsize env)(path := Some (- 1))\<rparr>) path root' args)
   \<and> count_total (main_loop env root' args paths s) = count_total s + int (length paths)"
proof -
  have a: "extract_content env path (lower (snd (splitext path))) args = None
      \<and> open_rb_head env path = None \<longrightarrow> process_file env path root' args = None"
    by (simp add: process_file_no_content read_plain_head_fails)
  have b: "extract_content env path (lower (snd (splitext path))) args = None
      \<and> all_text_reads_fail env path \<longrightarrow> process_file env path root' args = None"
    by (simp add: process_file_no_content read_plain_all_fail)
  have c: "getsize env path = None
      \<longrightarrow> process_file env path root' args
          = process_file (env\<lparr>getsize := (getsize env)(path := Some (- 1))\<rparr>) path root' args"
    by (simp add: process_file_getsize)
  show ?thesis using a b c main_loop_count_total by blast
qed

theorem filesystem_errors_caught_witness:
  "extract_content example_env ''/r/gone.py'' (lower (snd (splitext ''/r/gone.py''))) example_args
     = None
   \<and> open_rb_head example_env ''/r/gone.py'' = None
   \<and> all_text_reads_fail example_env ''/r/gone.py''
   \<and> getsize example_env ''/r/gone.py'' = None
   \<and> process_file example_env ''/r/gone.py'' ''/r'' example_args = None
   \<and> count_total (main_loop example_env ''/r'' example_args [''/r/gone.py'', ''/r/a.py'']
        \<lparr>out = [], count_total = 0, count_included = 0\<rparr>) = 2"
proof -
  have h1: "extract_content example_env ''/r/gone.py'' (lower (snd (splitext ''/r/gone.py'')))
              example_args = None" by code_simp
  have h2: "open_rb_head example_env ''/r/gone.py'' = None" by code_simp
  have h3: "all_text_reads_fail example_env ''/r/gone.py''" by code_simp
  have h4: "getsize example_env ''/r/gone.py'' = None" by code_simp
  show ?thesis
    using filesystem_errors_caught [of example_env "''/r/gone.py''" example_args "''/r''"
            "[''/r/gone.py'', ''/r/a.py'']" "\<lparr>out = [], count_total = 0, count_included = 0\<rparr>"]
          h1 h2 h3 h4
    by simp
qed

text \<open>
  C10, as stated, fails when the file changes between attempts: at \<open>/r/flaky.txt\<close> the
  first attempt reads the byte 0x81, which utf-8 rejects (so do utf-8-sig at the second
  attempt and cp1252 at the fourth), the latin-1 attempt and the last resort fail to
  open the file, and \<open>read_text_file\<close> returns \<open>None\<close> although not every attempt raised
  an error of the operating system.
\<close>

theorem none_without_all_os_errors:
  "read_text_file example_env ''/r/flaky.txt'' default_encodings = None
   \<and> open_text example_env ''/r/flaky.txt'' 0 = Some [0x81]
   \<and> \<not> all_text_reads_fail example_env ''/r/flaky.txt''"
  by code_simp

text \<open>
  C10, amended. \<open>read_text_file\<close> returns \<open>None\<close> only when the latin-1 attempt and the
  last-resort attempt both fail to read the file, which no decode failure can cause,
  since latin-1 decodes every byte sequence; it does return \<open>None\<close> when every attempt
  fails to read the file; and for a file that every attempt can read it returns some
  string.
\<close>

theorem read_text_file_none_only_os_errors:
  "(read_text_file env path default_encodings = None
      \<longrightarrow> open_text env path 2 = None \<and> open_text env path 4 = None)
   \<and> (all_text_reads_fail env path \<longrightarrow> read_text_file env path default_encodings = None)
   \<and> (all_text_reads_succeed env path' \<longrightarrow> read_text_file env path' default_encodings \<noteq> None)
   \<and> decode env LATIN1 bs \<noteq> None"
proof -
  have a: "read_text_file env path default_encodings = None
      \<longrightarrow> open_text env path 2 = None \<and> open_text env path 4 = None"
    using read_text_file_latin1 [of env path] read_text_file_last_resort [of env path]
    by blast
  have c: "all_text_reads_succeed env path'
      \<longrightarrow> read_text_file env path' default_encodings \<noteq> None"
    using read_text_file_latin1 [of env path'] by (simp add: all_text_reads_succeed_def)
  have d: "decode env LATIN1 bs \<noteq> None" by (simp add: decode_def)
  show ?thesis using a c d read_text_file_all_fail [of env path] by blast
qed

theorem read_text_file_none_only_os_errors_witness:
  "read_text_file example_env ''/r/gone.py'' default_encodings = None
   \<and> open_text example_env ''/r/gone.py'' 2 = None
   \<and> open_text example_env ''/r/gone.py'' 4 = None
   \<and> all_text_reads_fail example_env ''/r/gone.py''
   \<and> all_text_reads_succeed example_env ''/r/a.py''
   \<and> read_text_file example_env ''/r/a.py'' default_encodings \<noteq> None"
proof -
  have h1: "all_text_reads_fail example_env ''/r/gone.py''" by code_simp
  have h2: "all_text_reads_succeed example_env ''/r/a.py''" by code_simp
  show ?thesis
    using read_text_file_none_only_os_errors
            [of example_env "''/r/gone.py''" "''/r/a.py''" "[]"] h1 h2
    by simp
qed

section \<open>Path Enumerator: properties\<close>

lemma spec_kept_Cons:
  "spec_kept h ign (d # trail, fname)
     = (d \<notin> ign \<and> (h \<or> \<not> startswith_dot d) \<and> spec_kept h ign (trail, fname))"
  by (auto simp: spec_kept_def)

lemma path_of_Cons:
  "path_of dirpath (d # trail, fname) = path_of (path_join dirpath d) (trail, fname)"
  by (simp add: path_of_def)

lemma kept_files_here:
  "map (path_of dirpath) (filter (spec_kept h ign) (map (Pair []) fs))
     = map (path_join dirpath) (filter (\<lambda>fname. h \<or> \<not> startswith_dot fname) fs)"
  by (induction fs) (auto simp: path_of_def spec_kept_def)

lemma kept_files_below:
  "map (path_of dirpath)
       (filter (spec_kept h ign) (map (\<lambda>(trail, fname). (d # trail, fname)) es))
     = (if d \<notin> ign \<and> (h \<or> \<not> startswith_dot d)
        then map (path_of (path_join dirpath d)) (filter (spec_kept h ign) es) else [])"
  by (induction es) (auto simp: spec_kept_Cons path_of_Cons)

lemma iter_files_all_files:
  "iter_files dirpath h ign t = map (path_of dirpath) (filter (spec_kept h ign) (all_files t))"
  "iter_dirs dirpath h ign ds
     = map (path_of dirpath) (filter (spec_kept h ign) (all_files_dirs ds))"
proof (induction dirpath h ign t and dirpath h ign ds rule: iter_files_iter_dirs.induct)
  case (1 dirpath h ign dirnames filenames)
  then show ?case by (simp add: kept_files_here)
next
  case (2 dirpath h ign)
  show ?case by simp
next
  case (3 dirpath h ign d sub rest)
  show ?case
  proof (cases "\<not> h \<and> startswith_dot d")
    case True
    with 3 show ?thesis by (simp add: kept_files_below)
  next
    case hidden: False
    show ?thesis
    proof (cases "d \<in> ign")
      case True
      with hidden 3 show ?thesis by (simp add: kept_files_below)
    next
      case False
      with hidden 3 show ?thesis by (auto simp: kept_files_below)
    qed
  qed
qed

text \<open>
  C7. The Path Enumerator never descends into a directory whose name is in the ignore
  set: of the files of the listing it walks, it yields those for which no directory on
  the way from the root is ignored (or hidden, without hidden inclusion) and which are
  not hidden themselves, in the order of the listing, so no directory on the way to a
  yielded file is in the ignore set. A file under an ignored directory is therefore
  neither yielded nor counted as scanned.
\<close>

theorem ignored_dirs_pruned:
  "iter_files root' h ign t = map (path_of root') (filter (spec_kept h ign) (all_files t))
   \<and> (\<forall>entry \<in> set (filter (spec_kept h ign) (all_files t)).
         \<forall>d \<in> set (fst entry). d \<notin> ign)
   \<and> count_total (main_loop env root' args (iter_files root' h ign t) s)
       = count_total s + int (length (filter (spec_kept h ign) (all_files t)))"
proof -
  have a: "iter_files root' h ign t
      = map (path_of root') (filter (spec_kept h ign) (all_files t))"
    by (rule iter_files_all_files(1))
  have b: "\<forall>entry \<in> set (filter (spec_kept h ign) (all_files t)).
         \<forall>d \<in> set (fst entry). d \<notin> ign"
    by (auto simp: spec_kept_def list_all_iff)
  have c: "count_total (main_loop env root' args (iter_files root' h ign t) s)
       = count_total s + int (length (filter (spec_kept h ign) (all_files t)))"
    by (simp add: main_loop_count_total a)
  show ?thesis using a b c by blast
qed

theorem ignored_dirs_pruned_witness:
  "all_files (walk example_env ''/r'')
     = [([], ''a.py''), ([], ''b.png''), ([''src''], ''m.py''), ([''node_modules''], ''x.js'')]
   \<and> filter (spec_kept False DEFAULT_IGNORED_DIRS) (all_files (walk example_env ''/r''))
     = [([], ''a.py''), ([], ''b.png''), ([''src''], ''m.py'')]
   \<and> iter_files ''/r'' False DEFAULT_IGNORED_DIRS (walk example_env ''/r'')
     = [''/r/a.py'', ''/r/b.png'', ''/r/src/m.py'']
   \<and> ''src'' \<notin> DEFAULT_IGNORED_DIRS
   \<and> count_total (main_loop example_env ''/r'' example_args
        (iter_files ''/r'' False DEFAULT_IGNORED_DIRS (walk example_env ''/r''))
        \<lparr>out = [], count_total = 0, count_included = 0\<rparr>) = 3"
proof -
  have all: "all_files (walk example_env ''/r'')
     = [([], ''a.py''), ([], ''b.png''), ([''src''], ''m.py''), ([''node_modules''], ''x.js'')]"
    by code_simp
  have kept: "filter (spec_kept False DEFAULT_IGNORED_DIRS) (all_files (walk example_env ''/r''))
     = [([], ''a.py''), ([], ''b.png''), ([''src''], ''m.py'')]"
    by code_simp
  have paths: "map (path_of ''/r'') [([], ''a.py''), ([], ''b.png''), ([''src''], ''m.py'')]
     = [''/r/a.py'', ''/r/b.png'', ''/r/src/m.py'']"
    by code_simp
  let ?s0 = "\<lparr>out = [], count_total = 0, count_included = 0\<rparr>"
  note pruned = ignored_dirs_pruned [of "''/r''" False DEFAULT_IGNORED_DIRS
      "walk example_env ''/r''" example_env example_args ?s0]
  from pruned have "iter_files ''/r'' False DEFAULT_IGNORED_DIRS (walk example_env ''/r'')
      = map (path_of ''/r'')
          (filter (spec_kept False DEFAULT_IGNORED_DIRS) (all_files (walk example_env ''/r'')))"
    by blast
  then have yielded: "iter_files ''/r'' False DEFAULT_IGNORED_DIRS (walk example_env ''/r'')
      = [''/r/a.py'', ''/r/b.png'', ''/r/src/m.py'']"
    by (simp only: kept paths)
  from pruned have "\<forall>entry \<in> set (filter (spec_kept False DEFAULT_IGNORED_DIRS)
                        (all_files (walk example_env ''/r''))).
         \<forall>d \<in> set (fst entry). d \<notin> DEFAULT_IGNORED_DIRS"
    by blast
  then have "\<forall>entry \<in> set [([], ''a.py''), ([], ''b.png''), ([''src''], ''m.py'')].
         \<forall>d \<in> set (fst entry). d \<notin> DEFAULT_IGNORED_DIRS"
    by (simp only: kept)
  then have trail: "''src'' \<notin> DEFAULT_IGNORED_DIRS"
    by simp
  from pruned have "count_total (main_loop example_env ''/r'' example_args
        (iter_files ''/r'' False DEFAULT_IGNORED_DIRS (walk example_env ''/r'')) ?s0)
      = count_total ?s0 + int (length
          (filter (spec_kept False DEFAULT_IGNORED_DIRS) (all_files (walk example_env ''/r''))))"
    by blast
  then have counted: "count_total (main_loop example_env ''/r'' example_args
        (iter_files ''/r'' False DEFAULT_IGNORED_DIRS (walk example_env ''/r'')) ?s0) = 3"
    by (simp only: kept) simp
  from all kept yielded trail counted show ?thesis by blast
qed

section \<open>Pipeline Driver: properties\<close>

lemma main_loop_invariant:
  "count_included s \<le> count_total s
   \<Longrightarrow> count_included (main_loop env root' args paths s)
        \<le> count_total (main_loop env root' args paths s)"
  using main_loop_points_invariant [OF _ main_loop_in_points] .

text \<open>
  C3. From the start of the loop with both counters 0, every state the run passes
  through, between any two statements, has the included counter at most the scanned
  counter; and when \<open>main\<close> completes, the scanned counter is the number of paths
  \<open>iter_files\<close> yielded for the root and the configuration, the included counter still
  at most that.
\<close>

theorem counters_invariant:
  "(\<forall>t \<in> set (main_loop_points env root' args paths
                 \<lparr>out = header, count_total = 0, count_included = 0\<rparr>).
       count_included t \<le> count_total t)
   \<and> (\<forall>s. main env ns = Inr s \<longrightarrow>
         count_total s
           = int (length (iter_files (abspath env (ns_root ns)) (include_hidden (make_args ns))
                            (ignore_dirs (make_args ns)) (walk env (abspath env (ns_root ns)))))
         \<and> count_included s \<le> count_total s)"
proof -
  let ?s0 = "\<lparr>out = header, count_total = 0, count_included = 0\<rparr>"
  have a: "\<forall>t \<in> set (main_loop_points env root' args paths ?s0).
       count_included t \<le> count_total t"
    using main_loop_points_invariant [of ?s0 _ env root' args paths] by simp
  have b: "count_total s
           = int (length (iter_files (abspath env (ns_root ns)) (include_hidden (make_args ns))
                            (ignore_dirs (make_args ns)) (walk env (abspath env (ns_root ns)))))
         \<and> count_included s \<le> count_total s"
    if "main env ns = Inr s" for s
  proof -
    let ?r = "abspath env (ns_root ns)"
    let ?a = "make_args ns"
    let ?h = "\<lparr>out = write_header env ?r ?a, count_total = 0, count_included = 0\<rparr>"
    let ?f = "main_loop env ?r ?a (scanned_paths env ?r ?a) ?h"
    from that have s: "s = ?f\<lparr>out := out ?f @ summary ?f\<rparr>"
      by (simp add: main_def Let_def split: if_splits)
    have t: "count_total ?f = int (length (scanned_paths env ?r ?a))"
      by (simp add: main_loop_count_total)
    have i: "count_included ?f \<le> count_total ?f"
      by (rule main_loop_invariant) simp
    from s t i show ?thesis by (simp add: scanned_paths_def)
  qed
  from a b show ?thesis by blast
qed

theorem counters_invariant_witness:
  "main_loop example_env ''/r'' example_args [''/r/a.py'', ''/r/b.png'']
       \<lparr>out = [], count_total = 0, count_included = 0\<rparr>
     \<in> set (main_loop_points example_env ''/r'' example_args [''/r/a.py'', ''/r/b.png'']
              \<lparr>out = [], count_total = 0, count_included = 0\<rparr>)
   \<and> count_included (main_loop example_env ''/r'' example_args [''/r/a.py'', ''/r/b.png'']
       \<lparr>out = [], count_total = 0, count_included = 0\<rparr>) = 1
   \<and> count_total (main_loop example_env ''/r'' example_args [''/r/a.py'', ''/r/b.png'']
       \<lparr>out = [], count_total = 0, count_included = 0\<rparr>) = 2
   \<and> (case main example_env example_ns of
         Inl e \<Rightarrow> False
       | Inr s \<Rightarrow> count_total s = 3 \<and> count_included s = 2)"
proof -
  let ?s0 = "\<lparr>out = [], count_total = 0, count_included = 0\<rparr>"
  let ?ps = "[''/r/a.py'', ''/r/b.png'']"
  have m: "main_loop example_env ''/r'' example_args ?ps ?s0
     \<in> set (main_loop_points example_env ''/r'' example_args ?ps ?s0)"
    by (rule main_loop_in_points)
  have i: "count_included (main_loop example_env ''/r'' example_args ?ps ?s0) = 1"
    by code_simp
  have t: "count_total (main_loop example_env ''/r'' example_args ?ps ?s0) = 2"
    by code_simp
  have r: "case main example_env example_ns of
         Inl e \<Rightarrow> False
       | Inr s \<Rightarrow> count_total s = 3 \<and> count_included s = 2"
    by code_simp
  show ?thesis
    using counters_invariant [of example_env "''/r''" example_args ?ps "[]" example_ns] m i t r
    by simp
qed

section \<open>Two runs: properties\<close>

subsection \<open>The program reads the time only in the header\<close>

lemma try_encodings_now:
  "try_encodings (env\<lparr>now_strftime := t\<rparr>) path k encodings = try_encodings env path k encodings"
  by (induction encodings arbitrary: k)
     (auto simp: decode_def split: option.splits encoding.splits)

lemma read_text_file_now:
  "read_text_file (env\<lparr>now_strftime := t\<rparr>) path encodings = read_text_file env path encodings"
  by (simp add: read_text_file_def try_encodings_now cong: option.case_cong)

lemma read_plain_now:
  "read_plain (env\<lparr>now_strftime := t\<rparr>) path ext = read_plain env path ext"
  by (simp add: read_plain_def read_text_file_now cong: option.case_cong if_cong)

lemma extract_docx_text_now:
  "extract_docx_text (env\<lparr>now_strftime := t\<rparr>) path = extract_docx_text env path"
  by (simp add: extract_docx_text_def)

lemma extract_pdf_text_now:
  "extract_pdf_text (env\<lparr>now_strftime := t\<rparr>) path = extract_pdf_text env path"
  by (simp add: extract_pdf_text_def)

lemma extract_content_now:
  "extract_content (env\<lparr>now_strftime := t\<rparr>) path ext args = extract_content env path ext args"
  by (simp add: extract_content_def Let_def extract_docx_text_now extract_pdf_text_now)

lemma process_file_now:
  "process_file (env\<lparr>now_strftime := t\<rparr>) path root' args = process_file env path root' args"
  by (simp add: process_file_def Let_def file_size_def safe_relpath_def extract_content_now
        read_plain_now cong: if_cong split del: if_split)

lemma written_now:
  "written (env\<lparr>now_strftime := t\<rparr>) root' args = written env root' args"
  by (rule ext) (simp add: written_def process_file_now)

subsection \<open>What the loop writes\<close>

lemma loop_body_written:
  "loop_body env root' args path s =
     s\<lparr>out := out s @ written env root' args path,
       count_total := count_total s + 1,
       count_included := count_included s
          + (if process_file env path root' args = None then 0 else 1)\<rparr>"
  by (simp add: loop_body_def loop_body_points_def written_def Let_def split: option.splits)

lemma main_loop_written:
  "main_loop env root' args paths s =
     s\<lparr>out := out s @ concat (map (written env root' args) paths),
       count_total := count_total s + int (length paths),
       count_included := count_included s
          + int (length (filter (\<lambda>p. process_file env p root' args \<noteq> None) paths))\<rparr>"
proof (induction paths arbitrary: s)
  case Nil
  show ?case by simp
next
  case (Cons path paths)
  show ?case by (simp add: Cons.IH loop_body_written)
qed

subsection \<open>Lines\<close>

lemma split_lines_nonempty: "split_lines s \<noteq> []"
  by (induction s) (auto split: list.splits)

lemma split_lines_no_newline: "CHR ''\<newline>'' \<notin> set s \<Longrightarrow> split_lines s = [s]"
  by (induction s) auto

lemma split_lines_append:
  "split_lines (x @ CHR ''\<newline>'' # y) = split_lines x @ split_lines y"
proof (induction x)
  case Nil
  show ?case by simp
next
  case (Cons c x)
  then show ?case
    using split_lines_nonempty [of x] by (auto split: list.splits)
qed

lemma str_join_append:
  "xs \<noteq> [] \<Longrightarrow> ys \<noteq> [] \<Longrightarrow> str_join sep (xs @ ys) = str_join sep xs @ sep @ str_join sep ys"
proof (induction sep xs rule: str_join.induct)
  case (1 sep)
  then show ?case by simp
next
  case (2 sep x)
  then show ?case by (cases ys) auto
next
  case (3 sep x y ys')
  then show ?case by simp
qed

subsection \<open>The margin is a prefix of every indent\<close>

lemma startswith_refl: "startswith s s"
  by (simp add: startswith_def)

lemma startswith_Nil: "startswith s []"
  by (simp add: startswith_def)

lemma startswith_trans: "startswith a b \<Longrightarrow> startswith b c \<Longrightarrow> startswith a c"
  by (metis startswith_def append_take_drop_id append_assoc append_eq_conv_conj)

lemma startswith_common_prefix:
  "startswith a (common_prefix a b)" "startswith b (common_prefix a b)"
  by (induction a b rule: common_prefix.induct) (auto simp: startswith_def)

lemma margin_step_prefix:
  assumes "margin_step indent (Some m) = Some m'"
  shows "startswith m m' \<and> startswith indent m'"
  using assms
  by (auto simp: margin_step_def startswith_refl startswith_common_prefix split: if_splits)

lemma fold_margin_Some:
  "\<exists>m'. fold margin_step indents (Some m) = Some m' \<and> startswith m m'
        \<and> (\<forall>i \<in> set indents. startswith i m')"
proof (induction indents arbitrary: m)
  case Nil
  show ?case by (simp add: startswith_refl)
next
  case (Cons i indents)
  have "\<exists>m1. margin_step i (Some m) = Some m1"
    by (simp add: margin_step_def)
  then obtain m1 where m1: "margin_step i (Some m) = Some m1" ..
  from margin_step_prefix [OF m1] have p1: "startswith m m1" "startswith i m1" by auto
  from Cons.IH [of m1] obtain m' where
    m': "fold margin_step indents (Some m1) = Some m'" "startswith m1 m'"
        "\<forall>j \<in> set indents. startswith j m'"
    by blast
  from p1 m' have "startswith m m'" "startswith i m'"
    by (blast intro: startswith_trans)+
  with m1 m' show ?case by auto
qed

lemma fold_margin_prefix:
  assumes "fold margin_step indents None = Some m" and "i \<in> set indents"
  shows "startswith i m"
proof (cases indents)
  case Nil
  with assms show ?thesis by simp
next
  case (Cons j rest)
  have "margin_step j None = Some j" by (simp add: margin_step_def)
  with Cons assms(1) have f: "fold margin_step rest (Some j) = Some m" by simp
  from fold_margin_Some [of rest j] f have "startswith j m" "\<forall>k \<in> set rest. startswith k m"
    by auto
  with Cons assms(2) show ?thesis by auto
qed

subsection \<open>\<open>dedent\<close> around the time\<close>

lemma remove_margin_Nil: "remove_margin [] = id"
  by (rule ext) (simp add: remove_margin_def startswith_def)

lemma dedent_lines:
  "dedent text =
     str_join ''\<newline>''
       (map (remove_margin (margin_of (map blank_to_empty (split_lines text))))
            (map blank_to_empty (split_lines text)))"
  by (simp add: dedent_def Let_def margin_of_def remove_margin_Nil split: option.splits)

lemma margin_of_prefix: "i \<in> set (indents_of ls) \<Longrightarrow> startswith i (margin_of ls)"
  by (auto simp: margin_of_def startswith_Nil fold_margin_prefix split: option.splits)

lemma startswith_takeWhile: "startswith s (takeWhile P s)"
  by (metis startswith_def takeWhile_eq_take take_all_iff length_takeWhile_le
        takeWhile_dropWhile_id append_eq_conv_conj)

lemma startswith_length: "startswith s p \<Longrightarrow> length p \<le> length s"
  by (metis startswith_def length_take min.cobounded1)

lemma remove_margin_append:
  assumes "startswith g m"
  shows "remove_margin m (g @ t) = drop (length m) g @ t"
proof -
  from assms have len: "length m \<le> length g" by (rule startswith_length)
  with assms have "startswith (g @ t) m" by (simp add: startswith_def)
  with len show ?thesis by (simp add: remove_margin_def)
qed

lemma not_blank_append: "\<not> list_all is_blank g \<Longrightarrow> \<not> list_all is_blank (g @ t)"
  by simp

lemma takeWhile_blank_append:
  "\<not> list_all is_blank g \<Longrightarrow> takeWhile is_blank (g @ t) = takeWhile is_blank g"
  by (auto simp: list_all_iff intro: takeWhile_append1)

lemma indents_of_line:
  assumes "\<not> list_all is_blank g"
  shows "indents_of (LP @ [g @ t] @ LQ) = indents_of (LP @ [g] @ LQ)"
  using assms by (simp add: indents_of_def takeWhile_blank_append)

lemma margin_of_line:
  assumes "\<not> list_all is_blank g"
  shows "margin_of (LP @ [g @ t] @ LQ) = margin_of (LP @ [g] @ LQ)"
  by (simp only: margin_of_def indents_of_line [OF assms])

lemma dedent_around_time:
  fixes P Q g t :: string
  defines "LP \<equiv> map blank_to_empty (split_lines P)"
      and "LQ \<equiv> map blank_to_empty (split_lines Q)"
  defines "m \<equiv> margin_of (LP @ [g] @ LQ)"
  assumes g_nl: "CHR ''\<newline>'' \<notin> set g"
      and g_nb: "\<not> list_all is_blank g"
      and t_nl: "CHR ''\<newline>'' \<notin> set t"
  shows "dedent (P @ ''\<newline>'' @ g @ t @ ''\<newline>'' @ Q) =
           str_join ''\<newline>'' (map (remove_margin m) LP) @ ''\<newline>''
           @ drop (length m) g @ t @ ''\<newline>''
           @ str_join ''\<newline>'' (map (remove_margin m) LQ)"
    and "startswith (takeWhile is_blank g) m"
proof -
  have gt_nl: "CHR ''\<newline>'' \<notin> set (g @ t)" using g_nl t_nl by simp
  have "split_lines (P @ ''\<newline>'' @ g @ t @ ''\<newline>'' @ Q)
          = split_lines P @ split_lines ((g @ t) @ CHR ''\<newline>'' # Q)"
    using split_lines_append [of P "(g @ t) @ CHR ''\<newline>'' # Q"] by simp
  also have "\<dots> = split_lines P @ [g @ t] @ split_lines Q"
    by (simp only: split_lines_append split_lines_no_newline [OF gt_nl])
  finally have sl: "split_lines (P @ ''\<newline>'' @ g @ t @ ''\<newline>'' @ Q)
          = split_lines P @ [g @ t] @ split_lines Q" .
  have bl: "blank_to_empty (g @ t) = g @ t"
    using g_nb by (simp add: blank_to_empty_def)
  have lines: "map blank_to_empty (split_lines (P @ ''\<newline>'' @ g @ t @ ''\<newline>'' @ Q))
          = LP @ [g @ t] @ LQ"
    by (simp only: sl) (simp add: bl LP_def LQ_def)
  have mg: "margin_of (LP @ [g @ t] @ LQ) = m"
    unfolding m_def by (rule margin_of_line [OF g_nb])
  have "takeWhile is_blank g \<in> set (indents_of (LP @ [g] @ LQ))"
    using g_nb by (simp add: indents_of_def)
  then show pre: "startswith (takeWhile is_blank g) m"
    unfolding m_def by (rule margin_of_prefix)
  have "startswith g m"
    using startswith_trans [OF startswith_takeWhile pre] .
  then have rm: "remove_margin m (g @ t) = drop (length m) g @ t"
    by (rule remove_margin_append)
  have ne: "map (remove_margin m) LP \<noteq> []" "map (remove_margin m) LQ \<noteq> []"
    by (simp_all add: LP_def LQ_def split_lines_nonempty)
  have "dedent (P @ ''\<newline>'' @ g @ t @ ''\<newline>'' @ Q)
      = str_join ''\<newline>'' (map (remove_margin m) (LP @ [g @ t] @ LQ))"
    by (simp only: dedent_lines lines mg)
  also have "\<dots> = str_join ''\<newline>''
        (map (remove_margin m) LP @ ((drop (length m) g @ t) # map (remove_margin m) LQ))"
    by (simp add: rm)
  also have "\<dots> = str_join ''\<newline>'' (map (remove_margin m) LP) @ ''\<newline>''
        @ str_join ''\<newline>'' ((drop (length m) g @ t) # map (remove_margin m) LQ)"
    using ne by (intro str_join_append) simp_all
  also have "str_join ''\<newline>'' ((drop (length m) g @ t) # map (remove_margin m) LQ)
        = (drop (length m) g @ t) @ ''\<newline>'' @ str_join ''\<newline>'' (map (remove_margin m) LQ)"
    using ne(2) str_join_append [of "[drop (length m) g @ t]" "map (remove_margin m) LQ" "''\<newline>''"]
    by simp
  finally show "dedent (P @ ''\<newline>'' @ g @ t @ ''\<newline>'' @ Q) =
           str_join ''\<newline>'' (map (remove_margin m) LP) @ ''\<newline>''
           @ drop (length m) g @ t @ ''\<newline>''
           @ str_join ''\<newline>'' (map (remove_margin m) LQ)"
    by simp
qed

subsection \<open>The header and the whole run\<close>

lemma summary_counters:
  "summary (s\<lparr>out := x\<rparr>) = summary s"
  by (simp add: summary_def)

lemma main_completes:
  assumes "isdir env (abspath env (ns_root ns))" and "open_output env (ns_output ns)"
  shows "main env ns =
     Inr \<lparr>out = write_header env (abspath env (ns_root ns)) (make_args ns)
                 @ concat (map (written env (abspath env (ns_root ns)) (make_args ns))
                     (scanned_paths env (abspath env (ns_root ns)) (make_args ns)))
                 @ summary \<lparr>out = [],
                     count_total = int (length
                       (scanned_paths env (abspath env (ns_root ns)) (make_args ns))),
                     count_included = int (length (filter
                       (\<lambda>p. process_file env p (abspath env (ns_root ns)) (make_args ns) \<noteq> None)
                       (scanned_paths env (abspath env (ns_root ns)) (make_args ns))))\<rparr>,
           count_total = int (length
             (scanned_paths env (abspath env (ns_root ns)) (make_args ns))),
           count_included = int (length (filter
             (\<lambda>p. process_file env p (abspath env (ns_root ns)) (make_args ns) \<noteq> None)
             (scanned_paths env (abspath env (ns_root ns)) (make_args ns))))\<rparr>"
  using assms by (simp add: main_def Let_def main_loop_written summary_def)

lemma main_fails:
  assumes "\<not> (isdir env (abspath env (ns_root ns)) \<and> open_output env (ns_output ns))"
  shows "main env ns
           = Inl (if \<not> isdir env (abspath env (ns_root ns)) then NotADirectory
                  else OutputNotWritable)"
  using assms by (auto simp: main_def Let_def)

lemma write_header_time:
  assumes "CHR ''\<newline>'' \<notin> set t"
  shows "\<exists>k \<le> 4. write_header (env\<lparr>now_strftime := t\<rparr>) root' args =
     str_join ''\<newline>'' (map (remove_margin
         (margin_of (map blank_to_empty (split_lines (header_top env root'))
                     @ [''    Generated: (local time) '']
                     @ map blank_to_empty (split_lines (header_bottom env args)))))
       (map blank_to_empty (split_lines (header_top env root'))))
     @ ''\<newline>'' @ drop k ''    '' @ ''Generated: (local time) '' @ t @ ''\<newline>''
     @ str_join ''\<newline>'' (map (remove_margin
         (margin_of (map blank_to_empty (split_lines (header_top env root'))
                     @ [''    Generated: (local time) '']
                     @ map blank_to_empty (split_lines (header_bottom env args)))))
       (map blank_to_empty (split_lines (header_bottom env args))))
     @ ''\<newline>''
     \<and> k = length (margin_of (map blank_to_empty (split_lines (header_top env root'))
                     @ [''    Generated: (local time) '']
                     @ map blank_to_empty (split_lines (header_bottom env args))))"
proof -
  let ?g = "''    Generated: (local time) ''"
  let ?P = "header_top env root'"
  let ?Q = "header_bottom env args"
  let ?m = "margin_of (map blank_to_empty (split_lines ?P) @ [?g]
                       @ map blank_to_empty (split_lines ?Q))"
  have g_nl: "CHR ''\<newline>'' \<notin> set ?g" by simp
  have g_nb: "\<not> list_all is_blank ?g" by (simp add: is_blank_def)
  have tw: "takeWhile is_blank ?g = ''    ''" by (simp add: is_blank_def)
  have ht: "header_text (env\<lparr>now_strftime := t\<rparr>) root' args
              = ?P @ ''\<newline>'' @ ?g @ t @ ''\<newline>'' @ ?Q"
    by (simp add: header_text_def header_top_def header_bottom_def)
  note d = dedent_around_time [OF g_nl g_nb assms, of ?P ?Q]
  from d(2) have "startswith ''    '' ?m" by (simp only: tw)
  then have len: "length ?m \<le> 4" using startswith_length by fastforce
  have gsplit: "?g = ''    '' @ ''Generated: (local time) ''" by simp
  have dr: "drop (length ?m) ?g = drop (length ?m) ''    '' @ ''Generated: (local time) ''"
    using len by (subst gsplit, subst drop_append) simp
  have "write_header (env\<lparr>now_strftime := t\<rparr>) root' args
          = dedent (?P @ ''\<newline>'' @ ?g @ t @ ''\<newline>'' @ ?Q) @ ''\<newline>''"
    by (simp only: write_header_def ht)
  also have "\<dots> = (str_join ''\<newline>'' (map (remove_margin ?m)
                        (map blank_to_empty (split_lines ?P))) @ ''\<newline>''
           @ drop (length ?m) ?g @ t @ ''\<newline>''
           @ str_join ''\<newline>'' (map (remove_margin ?m)
                        (map blank_to_empty (split_lines ?Q)))) @ ''\<newline>''"
    by (simp only: d(1))
  finally have "write_header (env\<lparr>now_strftime := t\<rparr>) root' args
          = (str_join ''\<newline>'' (map (remove_margin ?m)
                        (map blank_to_empty (split_lines ?P))) @ ''\<newline>''
           @ (drop (length ?m) ''    '' @ ''Generated: (local time) '') @ t @ ''\<newline>''
           @ str_join ''\<newline>'' (map (remove_margin ?m)
                        (map blank_to_empty (split_lines ?Q)))) @ ''\<newline>''"
    by (simp only: dr)
  with len show ?thesis
    by (intro exI [of _ "length ?m"]) simp
qed

text \<open>
  C9. Two runs on the same tree, with the same answers of the environment and the same
  configuration, whose clocks give the times \<open>t1\<close> and \<open>t2\<close> (texts of one line, as
  \<open>strftime\<close> produces): either both stop with the same error before anything is
  written, or both complete with the same counters and their output files are the same
  text before and after the time in the line \<open>Generated: (local time)\<close> of the leading
  block. The sets of the configuration are printed sorted, so the header does not
  depend on the order in which Python iterates them.
\<close>

theorem two_runs_differ_only_in_timestamp:
  assumes "CHR ''\<newline>'' \<notin> set t1" and "CHR ''\<newline>'' \<notin> set t2"
  shows "(\<exists>e. main (env\<lparr>now_strftime := t1\<rparr>) ns = Inl e
             \<and> main (env\<lparr>now_strftime := t2\<rparr>) ns = Inl e)
       \<or> (\<exists>pre post total included.
             main (env\<lparr>now_strftime := t1\<rparr>) ns
               = Inr \<lparr>out = pre @ ''Generated: (local time) '' @ t1 @ ''\<newline>'' @ post,
                      count_total = total, count_included = included\<rparr>
           \<and> main (env\<lparr>now_strftime := t2\<rparr>) ns
               = Inr \<lparr>out = pre @ ''Generated: (local time) '' @ t2 @ ''\<newline>'' @ post,
                      count_total = total, count_included = included\<rparr>)"
proof (cases "isdir env (abspath env (ns_root ns)) \<and> open_output env (ns_output ns)")
  case False
  then have "\<not> (isdir (env\<lparr>now_strftime := t\<rparr>) (abspath (env\<lparr>now_strftime := t\<rparr>) (ns_root ns))
               \<and> open_output (env\<lparr>now_strftime := t\<rparr>) (ns_output ns))" for t
    by simp
  from main_fails [OF this] show ?thesis by simp
next
  case True
  let ?r = "abspath env (ns_root ns)"
  let ?a = "make_args ns"
  have ok: "isdir (env\<lparr>now_strftime := t\<rparr>) (abspath (env\<lparr>now_strftime := t\<rparr>) (ns_root ns))"
           "open_output (env\<lparr>now_strftime := t\<rparr>) (ns_output ns)" for t
    using True by simp_all
  have sp: "scanned_paths (env\<lparr>now_strftime := t\<rparr>) ?r ?a = scanned_paths env ?r ?a" for t
    by (simp add: scanned_paths_def)
  have run: "main (env\<lparr>now_strftime := t\<rparr>) ns =
     Inr \<lparr>out = write_header (env\<lparr>now_strftime := t\<rparr>) ?r ?a
                 @ concat (map (written env ?r ?a) (scanned_paths env ?r ?a))
                 @ summary \<lparr>out = [],
                     count_total = int (length (scanned_paths env ?r ?a)),
                     count_included = int (length (filter
                       (\<lambda>p. process_file env p ?r ?a \<noteq> None) (scanned_paths env ?r ?a)))\<rparr>,
           count_total = int (length (scanned_paths env ?r ?a)),
           count_included = int (length (filter
             (\<lambda>p. process_file env p ?r ?a \<noteq> None) (scanned_paths env ?r ?a)))\<rparr>" for t
    using main_completes [OF ok, of t] by (simp add: sp written_now process_file_now)
  from write_header_time [OF assms(1), of env ?r ?a] write_header_time [OF assms(2), of env ?r ?a]
  obtain X Y k where
    h1: "write_header (env\<lparr>now_strftime := t1\<rparr>) ?r ?a
           = X @ ''\<newline>'' @ drop k ''    '' @ ''Generated: (local time) '' @ t1 @ ''\<newline>'' @ Y" and
    h2: "write_header (env\<lparr>now_strftime := t2\<rparr>) ?r ?a
           = X @ ''\<newline>'' @ drop k ''    '' @ ''Generated: (local time) '' @ t2 @ ''\<newline>'' @ Y"
    by auto
  let ?pre = "X @ ''\<newline>'' @ drop k ''    ''"
  let ?post = "Y @ concat (map (written env ?r ?a) (scanned_paths env ?r ?a))
                 @ summary \<lparr>out = [],
                     count_total = int (length (scanned_paths env ?r ?a)),
                     count_included = int (length (filter
                       (\<lambda>p. process_file env p ?r ?a \<noteq> None) (scanned_paths env ?r ?a)))\<rparr>"
  have "main (env\<lparr>now_strftime := t1\<rparr>) ns
          = Inr \<lparr>out = ?pre @ ''Generated: (local time) '' @ t1 @ ''\<newline>'' @ ?post,
                 count_total = int (length (scanned_paths env ?r ?a)),
                 count_included = int (length (filter
                   (\<lambda>p. process_file env p ?r ?a \<noteq> None) (scanned_paths env ?r ?a)))\<rparr>"
    by (simp only: run h1 append_assoc)
  moreover have "main (env\<lparr>now_strftime := t2\<rparr>) ns
          = Inr \<lparr>out = ?pre @ ''Generated: (local time) '' @ t2 @ ''\<newline>'' @ ?post,
                 count_total = int (length (scanned_paths env ?r ?a)),
                 count_included = int (length (filter
                   (\<lambda>p. process_file env p ?r ?a \<noteq> None) (scanned_paths env ?r ?a)))\<rparr>"
    by (simp only: run h2 append_assoc)
  ultimately show ?thesis by blast
qed

theorem two_runs_differ_only_in_timestamp_witness:
  "CHR ''\<newline>'' \<notin> set ''2024-01-01 00:00:00''
   \<and> CHR ''\<newline>'' \<notin> set ''2025-06-30 23:59:59''
   \<and> (\<exists>pre post total included.
         main (example_env\<lparr>now_strftime := ''2024-01-01 00:00:00''\<rparr>) example_ns
           = Inr \<lparr>out = pre @ ''Generated: (local time) '' @ ''2024-01-01 00:00:00''
                          @ ''\<newline>'' @ post,
                  count_total = total, count_included = included\<rparr>
       \<and> main (example_env\<lparr>now_strftime := ''2025-06-30 23:59:59''\<rparr>) example_ns
           = Inr \<lparr>out = pre @ ''Generated: (local time) '' @ ''2025-06-30 23:59:59''
                          @ ''\<newline>'' @ post,
                  count_total = total, count_included = included\<rparr>)"
proof -
  have n1: "CHR ''\<newline>'' \<notin> set ''2024-01-01 00:00:00''" by simp
  have n2: "CHR ''\<newline>'' \<notin> set ''2025-06-30 23:59:59''" by simp
  have "isdir example_env (abspath example_env (ns_root example_ns))
        \<and> open_output example_env (ns_output example_ns)"
    by code_simp
  then have ok: "isdir (example_env\<lparr>now_strftime := t\<rparr>)
                   (abspath (example_env\<lparr>now_strftime := t\<rparr>) (ns_root example_ns))"
                "open_output (example_env\<lparr>now_strftime := t\<rparr>) (ns_output example_ns)" for t
    by simp_all
  have "\<nexists>e. main (example_env\<lparr>now_strftime := ''2024-01-01 00:00:00''\<rparr>) example_ns = Inl e"
    using main_completes [OF ok] by simp
  with two_runs_differ_only_in_timestamp [OF n1 n2, of example_env example_ns] n1 n2
  show ?thesis by blast
qed

end
